theory Spec2Isabelle
  imports Complex_Main "HOL-Library.Word" "HOL-Library.Multiset"
begin

section \<open>BADSEED SOIL analytics: the tracking and retrieval functions\<close>

text \<open>
  A shallow embedding of \<^verbatim>\<open>netlify/functions/analytics-track.js\<close> (the CommonJS tracker with
  its production and local-dev paths), of the ES-module tracker, and of
  \<^verbatim>\<open>netlify/functions/analytics-get.mjs\<close> (the summary merge and the two formatters).

  Conventions of the model.
  \<^item> A JavaScript number is a \<open>jsnum\<close>: a rational that an IEEE-754 binary64 holds, an
    infinity or \<open>NaN\<close>. Sums, differences, products and quotients are the exact results
    rounded to the nearest binary64, ties to even (\<open>r64\<close>), with overflow to an infinity
    and gradual underflow. The sign of zero is not modelled (\<open>JSON.stringify\<close> prints
    both zeros as \<open>0\<close>).
  \<^item> Counters that only grow by \<open>++\<close> from 0 (page views, sessions, hovers, clicks, the
    country, referer and hourly counters) and epoch milliseconds are \<open>int\<close>: they stay
    far below \<open>2^53\<close>, where a binary64 holds every integer.
  \<^item> \<open>data.duration\<close> is any JSON value, as the tracker does not validate it, and so
    are the two sums of durations, \<open>totalSessionDuration\<close> and \<open>cardHoverTime\<close>: a
    string duration turns them into strings. The text of a number and the number of a
    text (\<open>Number::toString\<close>, \<open>StringToNumber\<close>) are parameters (\<open>platform\<close>).
  \<^item> A JavaScript object literal is a record; an object used as a dictionary
    (\<open>countries\<close>, \<open>referers\<close>) is an association list in insertion order, which is the
    order of \<open>Object.entries\<close> for keys that are not array indices; the blob store is a
    map from keys to values.
  \<^item> The other fields of an event and of a daily aggregate have the types of the data
    model: \<open>card\<close> and \<open>sessionId\<close> are a string or \<open>null\<close>, \<open>timestamp\<close> is an
    integer. The \<open>event\<close> field of a request body, which the handler validates, is an
    arbitrary JSON value.
  \<^item> A string is a list of 8-bit characters, each its own code unit. \<open>hourlyActivity\<close>
    has the 24 slots that the zero aggregate gives it, and \<open>getHours\<close> returns an hour
    from 0 to 23, so that the write to a slot is in range.
  \<^item> \<open>Date.now()\<close>, the calendar date, the hour and \<open>Math.random()\<close> are read from an
    environment record; \<open>new URL(s).hostname\<close> and \<open>Date.prototype.getHours\<close> are
    parameters (\<open>platform\<close>). Store calls are modelled as succeeding; what the blob
    store returns is what \<open>JSON.stringify\<close> kept of what was written (\<open>json_val\<close>).
  \<^item> Properties that a JavaScript object inherits from \<open>Object.prototype\<close> are not
    modelled: a dictionary or a three-card object holds its own keys only.
\<close>

subsection \<open>JavaScript numbers\<close>

datatype jsnum = Fin rat | PosInf | NegInf | NaN

text \<open>A finite number: neither \<open>NaN\<close> nor an infinity.\<close>

fun is_Fin :: "jsnum \<Rightarrow> bool" where
  "is_Fin (Fin q) = True"
| "is_Fin x = False"

fun js_neg :: "jsnum \<Rightarrow> jsnum" where
  "js_neg (Fin a) = Fin (- a)"
| "js_neg PosInf = NegInf"
| "js_neg NegInf = PosInf"
| "js_neg NaN = NaN"

text \<open>The nearest integer, a half going to the even neighbour.\<close>

definition round_even :: "rat \<Rightarrow> int" where
  "round_even x =
     (let f = \<lfloor>x\<rfloor>; d = x - of_int f
      in if d < 1 / 2 then f
         else if 1 / 2 < d then f + 1
         else if even f then f else f + 1)"

text \<open>
  The binary exponent of a positive number: the doublings that bring it up to \<open>2^52\<close>,
  at most 1074 of them (below that the spacing of the subnormal numbers, \<open>2^-1074\<close>,
  applies), or the halvings that bring it below \<open>2^53\<close>, at most 971 of them (above
  that is the overflow).
\<close>

fun up_steps :: "nat \<Rightarrow> rat \<Rightarrow> nat" where
  "up_steps 0 a = 0"
| "up_steps (Suc k) a = (if 2 ^ 52 \<le> a then 0 else Suc (up_steps k (2 * a)))"

fun down_steps :: "nat \<Rightarrow> rat \<Rightarrow> nat" where
  "down_steps 0 a = 0"
| "down_steps (Suc k) a = (if a < 2 ^ 53 then 0 else Suc (down_steps k (a / 2)))"

text \<open>
  \<open>r64 q\<close>: the binary64 nearest to the rational \<open>q\<close>, ties to even; a 53-bit
  significand \<open>m\<close> and a power of two.
\<close>

definition r64_pos :: "rat \<Rightarrow> jsnum" where
  "r64_pos a =
     (if a < 2 ^ 53 then
        (let n = up_steps 1074 a
         in Fin (of_int (round_even (a * 2 ^ n)) / 2 ^ n))
      else
        (let n = down_steps 971 a;
             m = round_even (a / 2 ^ n)
         in if 2 ^ 53 \<le> a / 2 ^ n \<or> (2::rat) ^ 1024 \<le> of_int m * 2 ^ n then PosInf
            else Fin (of_int m * 2 ^ n)))"

definition r64 :: "rat \<Rightarrow> jsnum" where
  "r64 q = (if q = 0 then Fin 0 else if 0 < q then r64_pos q else js_neg (r64_pos (- q)))"

text \<open>The largest finite binary64.\<close>

definition max_double :: rat where
  "max_double = (2 ^ 53 - 1) * 2 ^ 971"

text \<open>An integer counter read as a number.\<close>

definition num :: "int \<Rightarrow> jsnum" where
  "num n = Fin (of_int n)"

text \<open>The operators \<open>+\<close>, \<open>-\<close>, \<open>*\<close> and \<open>/\<close> on two numbers.\<close>

fun js_add :: "jsnum \<Rightarrow> jsnum \<Rightarrow> jsnum" where
  "js_add (Fin a) (Fin b) = r64 (a + b)"
| "js_add NaN y = NaN"
| "js_add x NaN = NaN"
| "js_add PosInf NegInf = NaN"
| "js_add NegInf PosInf = NaN"
| "js_add PosInf y = PosInf"
| "js_add x PosInf = PosInf"
| "js_add NegInf y = NegInf"
| "js_add x NegInf = NegInf"

definition js_sub :: "jsnum \<Rightarrow> jsnum \<Rightarrow> jsnum" where
  "js_sub x y = js_add x (js_neg y)"

fun js_mul :: "jsnum \<Rightarrow> jsnum \<Rightarrow> jsnum" where
  "js_mul (Fin a) (Fin b) = r64 (a * b)"
| "js_mul NaN y = NaN"
| "js_mul x NaN = NaN"
| "js_mul (Fin a) PosInf = (if a = 0 then NaN else if 0 < a then PosInf else NegInf)"
| "js_mul (Fin a) NegInf = (if a = 0 then NaN else if 0 < a then NegInf else PosInf)"
| "js_mul PosInf (Fin b) = (if b = 0 then NaN else if 0 < b then PosInf else NegInf)"
| "js_mul NegInf (Fin b) = (if b = 0 then NaN else if 0 < b then NegInf else PosInf)"
| "js_mul PosInf PosInf = PosInf"
| "js_mul PosInf NegInf = NegInf"
| "js_mul NegInf PosInf = NegInf"
| "js_mul NegInf NegInf = PosInf"

fun js_div :: "jsnum \<Rightarrow> jsnum \<Rightarrow> jsnum" where
  "js_div (Fin a) (Fin b) =
     (if b \<noteq> 0 then r64 (a / b)
      else if a = 0 then NaN
      else if 0 < a then PosInf else NegInf)"
| "js_div NaN y = NaN"
| "js_div x NaN = NaN"
| "js_div (Fin a) y = Fin 0"
| "js_div PosInf (Fin b) = (if b < 0 then NegInf else PosInf)"
| "js_div NegInf (Fin b) = (if b < 0 then PosInf else NegInf)"
| "js_div x y = NaN"

text \<open>\<open>Math.round\<close>: the nearest integer, a half rounded towards plus infinity.\<close>

fun math_round :: "jsnum \<Rightarrow> jsnum" where
  "math_round (Fin a) = Fin (of_int \<lfloor>a + 1 / 2\<rfloor>)"
| "math_round x = x"

subsection \<open>JavaScript values\<close>

text \<open>
  A value that \<open>JSON.parse\<close> can return, or \<open>undefined\<close> for a missing field. A number
  literal beyond the binary64 range, such as \<open>1e999\<close>, parses to an infinity.
\<close>

datatype jsval =
  JUndefined
| JNull
| JBool bool
| JNum jsnum
| JStr string
| JArr "jsval list"
| JObj "(string \<times> jsval) list"

fun truthy :: "jsval \<Rightarrow> bool" where
  "truthy JUndefined = False"
| "truthy JNull = False"
| "truthy (JBool b) = b"
| "truthy (JNum n) = (n \<noteq> Fin 0 \<and> n \<noteq> NaN)"
| "truthy (JStr s) = (s \<noteq> [])"
| "truthy (JArr xs) = True"
| "truthy (JObj kvs) = True"

text \<open>\<open>Array.prototype.includes\<close> on an array of strings: only an equal string is found.\<close>

fun includes_str :: "string list \<Rightarrow> jsval \<Rightarrow> bool" where
  "includes_str xs (JStr s) = (s \<in> set xs)"
| "includes_str xs _ = False"

text \<open>Truthiness of a value that is a string or \<open>null\<close>.\<close>

fun truthy_str :: "string option \<Rightarrow> bool" where
  "truthy_str None = False"
| "truthy_str (Some s) = (s \<noteq> [])"

text \<open>Truthiness of a value that is an integer or \<open>undefined\<close>.\<close>

fun truthy_num :: "int option \<Rightarrow> bool" where
  "truthy_num None = False"
| "truthy_num (Some n) = (n \<noteq> 0)"

text \<open>\<open>x || 0\<close>\<close>

definition or_zero :: "jsval \<Rightarrow> jsval" where
  "or_zero v = (if truthy v then v else JNum (Fin 0))"

text \<open>
  What \<open>JSON.stringify\<close> and \<open>JSON.parse\<close> make of a value: an infinity or \<open>NaN\<close>
  comes back as \<open>null\<close>, an \<open>undefined\<close> element of an array too, and an \<open>undefined\<close>
  field of an object is dropped.
\<close>

fun json_val :: "jsval \<Rightarrow> jsval" where
  "json_val (JNum x) = (if is_Fin x then JNum x else JNull)"
| "json_val (JArr xs) =
     JArr (map (\<lambda>x. case x of JUndefined \<Rightarrow> JNull | _ \<Rightarrow> json_val x) xs)"
| "json_val (JObj kvs) =
     JObj (map (\<lambda>kv. (fst kv, json_val (snd kv))) (filter (\<lambda>kv. snd kv \<noteq> JUndefined) kvs))"
| "json_val v = v"

subsection \<open>Number to string, and the visitor hash\<close>

definition digit_char :: "nat \<Rightarrow> char" where
  "digit_char d = ''0123456789abcdefghijklmnopqrstuvwxyz'' ! d"

text \<open>\<open>Number.prototype.toString(radix)\<close> on a non-negative integer, radix from 2 to 36.\<close>

function toString_radix :: "nat \<Rightarrow> nat \<Rightarrow> string" where
  "toString_radix r n =
     (if n < r \<or> r < 2 then [digit_char n]
      else toString_radix r (n div r) @ [digit_char (n mod r)])"
  by pat_completeness auto
termination
  by (relation "measure (\<lambda>(r, n). n)") auto

declare toString_radix.simps [simp del]

text \<open>
  \<open>hashString\<close>: \<open>hash = ((hash << 5) - hash) + char; hash = hash & hash\<close> keeps the low 32
  bits after every character; the result is \<open>Math.abs(hash).toString(36)\<close>.
\<close>

definition hash_step :: "32 word \<Rightarrow> char \<Rightarrow> 32 word" where
  "hash_step h c = (push_bit 5 h - h) + of_nat (of_char c)"

definition hashString :: "string \<Rightarrow> string" where
  "hashString str = toString_radix 36 (nat \<bar>sint (foldl hash_step 0 str)\<bar>)"

subsection \<open>The data model\<close>

record client_info =
  country :: string
  referer :: string

record event_data =
  duration :: jsval

text \<open>
  The event record built by the tracker. \<open>card_id\<close> is the source's \<open>card\<close>;
  \<open>duration (data e)\<close> is \<open>e.data?.duration\<close>, \<open>JUndefined\<close> when the field is absent.
\<close>

record event_record =
  event :: string
  page :: string
  card_id :: "string option"
  data :: event_data
  sessionId :: "string option"
  visitorHash :: string
  timestamp :: int
  serverTime :: int
  client :: "client_info option"

text \<open>An object with the three card keys, \<open>{ voice, value, agent }\<close>.\<close>

record 'a per_card =
  voice :: 'a
  value_c :: 'a
  agent :: 'a

record totals =
  pageViews :: int
  uniqueVisitors :: "string list"
  cardHovers :: "int per_card"
  cardClicks :: "int per_card"
  cardHoverTime :: "jsval per_card"
  sessions :: int
  totalSessionDuration :: jsval
  countries :: "(string \<times> int) list"
  referers :: "(string \<times> int) list"
  hourlyActivity :: "int list"

text \<open>The local-dev aggregate has a \<open>date\<close>; the stored one also has \<open>lastUpdated\<close>.\<close>

record dated_stats = totals +
  date :: string

record daily_stats = dated_stats +
  lastUpdated :: int

definition zero_cards :: "int per_card" where
  "zero_cards = \<lparr>voice = 0, value_c = 0, agent = 0\<rparr>"

definition zero_times :: "jsval per_card" where
  "zero_times = \<lparr>voice = JNum (Fin 0), value_c = JNum (Fin 0), agent = JNum (Fin 0)\<rparr>"

definition zero_totals :: totals where
  "zero_totals =
     \<lparr>pageViews = 0, uniqueVisitors = [], cardHovers = zero_cards, cardClicks = zero_cards,
      cardHoverTime = zero_times, sessions = 0, totalSessionDuration = JNum (Fin 0),
      countries = [], referers = [], hourlyActivity = replicate 24 0\<rparr>"

definition zero_dated :: "string \<Rightarrow> dated_stats" where
  "zero_dated d = totals.extend zero_totals \<lparr>date = d\<rparr>"

definition zero_daily :: "string \<Rightarrow> int \<Rightarrow> daily_stats" where
  "zero_daily d t = totals.extend zero_totals \<lparr>date = d, lastUpdated = t\<rparr>"

subsection \<open>Object reads and writes used by the fold\<close>

text \<open>\<open>obj[c]\<close> on a three-card object: \<open>None\<close> is \<open>undefined\<close>.\<close>

definition card_lookup :: "'a per_card \<Rightarrow> string \<Rightarrow> 'a option" where
  "card_lookup pc c =
     (if c = ''voice'' then Some (voice pc)
      else if c = ''value'' then Some (value_c pc)
      else if c = ''agent'' then Some (agent pc)
      else None)"

definition card_store :: "'a per_card \<Rightarrow> string \<Rightarrow> 'a \<Rightarrow> 'a per_card" where
  "card_store pc c v =
     (if c = ''voice'' then pc\<lparr>voice := v\<rparr>
      else if c = ''value'' then pc\<lparr>value_c := v\<rparr>
      else if c = ''agent'' then pc\<lparr>agent := v\<rparr>
      else pc)"

text \<open>\<open>if (event.card && obj[event.card] !== undefined) obj[event.card] += n\<close>.\<close>

definition card_add :: "int per_card \<Rightarrow> string option \<Rightarrow> int \<Rightarrow> int per_card" where
  "card_add pc c n =
     (if truthy_str c then
        (case card_lookup pc (the c) of
           Some v \<Rightarrow> card_store pc (the c) (v + n)
         | None \<Rightarrow> pc)
      else pc)"

text \<open>\<open>obj[k] = (obj[k] || 0) + n\<close> on a dictionary, a new key going to the end.\<close>

fun add_key :: "string \<Rightarrow> int \<Rightarrow> (string \<times> int) list \<Rightarrow> (string \<times> int) list" where
  "add_key k n [] = [(k, 0 + n)]"
| "add_key k n ((k', c) # kvs) =
     (if k = k' then (k', (if c \<noteq> 0 then c else 0) + n) # kvs
      else (k', c) # add_key k n kvs)"

record platform =
  url_hostname :: "string \<Rightarrow> string option"
  getHours :: "int \<Rightarrow> nat"
  number_to_string :: "jsnum \<Rightarrow> string"
  string_to_number :: "string \<Rightarrow> jsnum"

text \<open>
  \<open>url_hostname P s\<close> is \<open>new URL(s).hostname\<close>, \<open>None\<close> when the constructor throws;
  \<open>getHours P t\<close> is \<open>new Date(t).getHours()\<close>, an hour from 0 to 23;
  \<open>number_to_string P x\<close> is the text of the number \<open>x\<close> (\<open>String(x)\<close>) and
  \<open>string_to_number P s\<close> the number that the text \<open>s\<close> converts to (\<open>Number(s)\<close>).
\<close>

subsection \<open>Coercions and the operator \<open>+\<close> on values\<close>

fun join_comma :: "string list \<Rightarrow> string" where
  "join_comma [] = []"
| "join_comma [x] = x"
| "join_comma (x # y # zs) = x @ '','' @ join_comma (y # zs)"

text \<open>
  \<open>ToString\<close>: an array is its elements joined by commas, \<open>null\<close> and \<open>undefined\<close>
  elements being empty; an object is \<open>[object Object]\<close>.
\<close>

fun to_string :: "platform \<Rightarrow> jsval \<Rightarrow> string" where
  "to_string P JUndefined = ''undefined''"
| "to_string P JNull = ''null''"
| "to_string P (JBool b) = (if b then ''true'' else ''false'')"
| "to_string P (JNum x) = number_to_string P x"
| "to_string P (JStr s) = s"
| "to_string P (JArr xs) =
     join_comma (map (\<lambda>x. case x of JUndefined \<Rightarrow> [] | JNull \<Rightarrow> [] | _ \<Rightarrow> to_string P x) xs)"
| "to_string P (JObj kvs) = ''[object Object]''"

text \<open>The values whose primitive is a string: strings, arrays and objects.\<close>

fun stringish :: "jsval \<Rightarrow> bool" where
  "stringish (JStr s) = True"
| "stringish (JArr xs) = True"
| "stringish (JObj kvs) = True"
| "stringish v = False"

text \<open>\<open>ToNumber\<close>\<close>

definition to_number :: "platform \<Rightarrow> jsval \<Rightarrow> jsnum" where
  "to_number P v =
     (case v of
        JUndefined \<Rightarrow> NaN
      | JNull \<Rightarrow> Fin 0
      | JBool b \<Rightarrow> (if b then Fin 1 else Fin 0)
      | JNum x \<Rightarrow> x
      | _ \<Rightarrow> string_to_number P (to_string P v))"

text \<open>
  \<open>a + b\<close>: a concatenation when either primitive is a string, a sum of numbers
  otherwise.
\<close>

definition js_plus :: "platform \<Rightarrow> jsval \<Rightarrow> jsval \<Rightarrow> jsval" where
  "js_plus P a b =
     (if stringish a \<or> stringish b then JStr (to_string P a @ to_string P b)
      else JNum (js_add (to_number P a) (to_number P b)))"

text \<open>
  \<open>if (event.card && obj[event.card] !== undefined) obj[event.card] += v\<close> on the
  three-card object of hover times.
\<close>

definition card_plus ::
  "platform \<Rightarrow> jsval per_card \<Rightarrow> string option \<Rightarrow> jsval \<Rightarrow> jsval per_card" where
  "card_plus P pc c v =
     (if truthy_str c then
        (case card_lookup pc (the c) of
           Some x \<Rightarrow> if x \<noteq> JUndefined then card_store pc (the c) (js_plus P x v) else pc
         | None \<Rightarrow> pc)
      else pc)"

subsection \<open>The fold of one event into a daily aggregate\<close>

text \<open>The \<open>switch (event.event)\<close> of \<open>updateProductionStats\<close>, \<open>updateStats\<close> and the local path.\<close>

definition fold_kind ::
  "platform \<Rightarrow> event_record \<Rightarrow> 'a totals_scheme \<Rightarrow> 'a totals_scheme" where
  "fold_kind P ev stats =
     (if event ev = ''page_view'' then
        (let stats1 = stats\<lparr>pageViews := pageViews stats + 1\<rparr>
         in if visitorHash ev \<notin> set (uniqueVisitors stats1)
            then stats1\<lparr>uniqueVisitors := uniqueVisitors stats1 @ [visitorHash ev]\<rparr>
            else stats1)
      else if event ev = ''session_start'' then stats\<lparr>sessions := sessions stats + 1\<rparr>
      else if event ev = ''card_hover_start'' then
        stats\<lparr>cardHovers := card_add (cardHovers stats) (card_id ev) 1\<rparr>
      else if event ev = ''card_hover_end'' then
        (if truthy (duration (data ev))
         then stats\<lparr>cardHoverTime :=
                card_plus P (cardHoverTime stats) (card_id ev) (duration (data ev))\<rparr>
         else stats)
      else if event ev = ''card_click'' then
        stats\<lparr>cardClicks := card_add (cardClicks stats) (card_id ev) 1\<rparr>
      else if event ev = ''session_end'' then
        (if truthy (duration (data ev))
         then stats\<lparr>totalSessionDuration :=
                js_plus P (totalSessionDuration stats) (duration (data ev))\<rparr>
         else stats)
      else stats)"

text \<open>\<open>// Update country stats\<close>\<close>

definition fold_country :: "event_record \<Rightarrow> 'a totals_scheme \<Rightarrow> 'a totals_scheme" where
  "fold_country ev stats =
     (case client ev of
        None \<Rightarrow> stats
      | Some c \<Rightarrow>
          if country c \<noteq> [] \<and> country c \<noteq> ''unknown''
          then stats\<lparr>countries := add_key (country c) 1 (countries stats)\<rparr>
          else stats)"

text \<open>\<open>// Update referer stats\<close>, with its \<open>try { ... } catch {}\<close>\<close>

definition fold_referer ::
  "platform \<Rightarrow> event_record \<Rightarrow> 'a totals_scheme \<Rightarrow> 'a totals_scheme" where
  "fold_referer P ev stats =
     (case client ev of
        None \<Rightarrow> stats
      | Some c \<Rightarrow>
          if referer c \<noteq> [] \<and> referer c \<noteq> ''direct''
          then (case url_hostname P (referer c) of
                  None \<Rightarrow> stats
                | Some refHost \<Rightarrow> stats\<lparr>referers := add_key refHost 1 (referers stats)\<rparr>)
          else stats)"

text \<open>\<open>// Update hourly activity\<close>\<close>

definition fold_hour ::
  "platform \<Rightarrow> event_record \<Rightarrow> 'a totals_scheme \<Rightarrow> 'a totals_scheme" where
  "fold_hour P ev stats =
     (let h = getHours P (timestamp ev)
      in stats\<lparr>hourlyActivity := (hourlyActivity stats)[h := hourlyActivity stats ! h + 1]\<rparr>)"

text \<open>
  The body of \<open>updateProductionStats\<close> (CommonJS tracker) and of \<open>updateStats\<close> (ES-module
  tracker) between the initialisation and the write: the two are the same statements.
\<close>

definition fold_event :: "platform \<Rightarrow> int \<Rightarrow> event_record \<Rightarrow> daily_stats \<Rightarrow> daily_stats" where
  "fold_event P t ev stats =
     (fold_hour P ev (fold_referer P ev (fold_country ev (fold_kind P ev stats))))
       \<lparr>lastUpdated := t\<rparr>"

text \<open>
  The fold written inside the local-dev branch of the CommonJS handler: the switch, the
  country counter and the hourly slot.
\<close>

definition local_fold :: "platform \<Rightarrow> event_record \<Rightarrow> dated_stats \<Rightarrow> dated_stats" where
  "local_fold P ev stats = fold_hour P ev (fold_country ev (fold_kind P ev stats))"

subsection \<open>The stores\<close>

text \<open>
  The blob store \<open>soil-analytics\<close>, its keys under \<open>events/\<close> holding event records and
  its keys under \<open>stats/\<close> holding daily aggregates; and the in-memory \<open>localStore\<close>.
\<close>

record blob_store =
  event_blobs :: "string \<rightharpoonup> event_record"
  stats_blobs :: "string \<rightharpoonup> daily_stats"

record local_store =
  events :: "event_record list"
  stats :: "string \<rightharpoonup> dated_stats"

record world =
  blobs :: blob_store
  localStore :: local_store

record env =
  now :: int
  today :: string
  hour :: string
  rand :: string
  production :: bool

text \<open>
  \<open>now\<close> is \<open>Date.now()\<close> (the reads of one call are one instant), \<open>today\<close> is
  \<open>new Date().toISOString().split('T')[0]\<close>, \<open>hour\<close> is the padded \<open>getHours()\<close>,
  \<open>rand\<close> is \<open>Math.random().toString(36).substr(2, 9)\<close>, \<open>production\<close> is
  \<open>isProduction()\<close>.
\<close>

text \<open>
  What the blob store returns for a written aggregate or event: the sums of durations
  and the event's duration after \<open>JSON.stringify\<close>.
\<close>

definition json_stats :: "daily_stats \<Rightarrow> daily_stats" where
  "json_stats s =
     s\<lparr>totalSessionDuration := json_val (totalSessionDuration s),
       cardHoverTime :=
         \<lparr>voice = json_val (voice (cardHoverTime s)),
          value_c = json_val (value_c (cardHoverTime s)),
          agent = json_val (agent (cardHoverTime s))\<rparr>\<rparr>"

definition json_event :: "event_record \<Rightarrow> event_record" where
  "json_event e = e\<lparr>data := \<lparr>duration = json_val (duration (data e))\<rparr>\<rparr>"

text \<open>The key \<open>`stats/${date}`\<close> of a day's aggregate.\<close>

definition stats_key :: "string \<Rightarrow> string" where
  "stats_key d = ''stats/'' @ d"

definition updateProductionStats ::
  "platform \<Rightarrow> int \<Rightarrow> blob_store \<Rightarrow> event_record \<Rightarrow> string \<Rightarrow> blob_store" where
  "updateProductionStats P t store ev d =
     (let statsKey = stats_key d;
          stats0 = (case stats_blobs store statsKey of
                      None \<Rightarrow> zero_daily d t
                    | Some s \<Rightarrow> s)
      in store\<lparr>stats_blobs :=
                 (stats_blobs store)(statsKey \<mapsto> json_stats (fold_event P t ev stats0))\<rparr>)"

definition updateStats ::
  "platform \<Rightarrow> int \<Rightarrow> blob_store \<Rightarrow> event_record \<Rightarrow> string \<Rightarrow> blob_store" where
  "updateStats P t store ev d =
     (let statsKey = stats_key d;
          stats0 = (case stats_blobs store statsKey of
                      None \<Rightarrow> zero_daily d t
                    | Some s \<Rightarrow> s)
      in store\<lparr>stats_blobs :=
                 (stats_blobs store)(statsKey \<mapsto> json_stats (fold_event P t ev stats0))\<rparr>)"

subsection \<open>The tracking handlers\<close>

definition VALID_EVENTS :: "string list" where
  "VALID_EVENTS =
     [''page_view'', ''page_exit'', ''page_hidden'', ''page_visible'', ''card_hover_start'',
      ''card_hover_end'', ''card_click'', ''iframe_hover_start'', ''iframe_hover_end'',
      ''iframe_ready'', ''session_start'', ''session_end'']"

text \<open>
  The destructured request body. \<open>eventType\<close> is any JSON value (\<open>JUndefined\<close> when the
  field is missing); a body that is a number, a string, a boolean or an array destructures
  like the empty object. \<open>Unparseable\<close> is a body on which \<open>JSON.parse\<close> throws or that
  parses to \<open>null\<close>, on which the destructuring throws: both reach the \<open>catch\<close>.
\<close>

record raw_event =
  eventType :: jsval
  page_in :: "string option"
  card_in :: "string option"
  data_in :: "event_data option"
  sessionId_in :: "string option"
  timestamp_in :: "int option"

datatype parsed_body = Unparseable | Body raw_event

record client_headers =
  x_forwarded_for :: "string option"
  client_ip :: "string option"
  user_agent :: "string option"
  referer_h :: "string option"
  x_country :: "string option"
  x_nf_client_connection_ip :: "string option"

record request =
  httpMethod :: string
  body_in :: parsed_body
  headers :: client_headers

datatype resp_body =
  EmptyBody
| ErrorBody string
| SuccessKey string string
| SuccessStored string nat

text \<open>
  \<open>SuccessKey mode eventKey\<close> is \<open>{ success: true, mode, eventKey }\<close> and
  \<open>SuccessStored mode n\<close> is \<open>{ success: true, mode, stored: n }\<close>.
\<close>

record response =
  statusCode :: nat
  body :: resp_body

text \<open>\<open>a || b\<close> for a string or absent \<open>a\<close>.\<close>

definition js_or :: "string option \<Rightarrow> string \<Rightarrow> string" where
  "js_or a b = (if truthy_str a then the a else b)"

definition js_space :: "char \<Rightarrow> bool" where
  "js_space c = (c \<in> {CHR 0x09, CHR 0x0A, CHR 0x0B, CHR 0x0C, CHR 0x0D, CHR 0x20, CHR 0xA0})"

definition trim :: "string \<Rightarrow> string" where
  "trim s = rev (dropWhile js_space (rev (dropWhile js_space s)))"

text \<open>\<open>h['x-forwarded-for']?.split(',')[0]?.trim()\<close>\<close>

definition first_forwarded :: "client_headers \<Rightarrow> string option" where
  "first_forwarded h = map_option (\<lambda>s. trim (takeWhile (\<lambda>c. c \<noteq> CHR '','') s)) (x_forwarded_for h)"

definition the_str :: "jsval \<Rightarrow> string" where
  "the_str v = (case v of JStr s \<Rightarrow> s | _ \<Rightarrow> [])"

definition build_event ::
  "env \<Rightarrow> raw_event \<Rightarrow> string \<Rightarrow> client_info \<Rightarrow> event_record" where
  "build_event E b vh ci =
     \<lparr>event = the_str (eventType b),
      page = js_or (page_in b) ''gateway'',
      card_id = (if truthy_str (card_in b) then card_in b else None),
      data = (case data_in b of Some d \<Rightarrow> d | None \<Rightarrow> \<lparr>duration = JUndefined\<rparr>),
      sessionId = (if truthy_str (sessionId_in b) then sessionId_in b else None),
      visitorHash = vh,
      timestamp = (if truthy_num (timestamp_in b) then the (timestamp_in b) else now E),
      serverTime = now E,
      client = Some ci\<rparr>"

definition event_key :: "env \<Rightarrow> string" where
  "event_key E =
     ''events/'' @ today E @ ''/'' @ hour E @ ''/'' @ toString_radix 10 (nat (now E))
       @ ''-'' @ rand E"

text \<open>The local-dev branch of the CommonJS handler; the result is the new length of the log.\<close>

definition ingest_local ::
  "platform \<Rightarrow> env \<Rightarrow> event_record \<Rightarrow> local_store \<Rightarrow> nat \<times> local_store" where
  "ingest_local P E ev ls =
     (let pushed = events ls @ [ev];
          kept = (if length pushed > 1000 then drop (length pushed - 1000) pushed else pushed);
          stats0 = (case stats ls (today E) of
                      None \<Rightarrow> zero_dated (today E)
                    | Some s \<Rightarrow> s)
      in (length kept,
          ls\<lparr>events := kept, stats := (stats ls)(today E \<mapsto> local_fold P ev stats0)\<rparr>))"

text \<open>
  The client info read from the headers, the visitor fingerprint and the event record, as
  the CommonJS handler builds them.
\<close>

definition handler_event :: "env \<Rightarrow> request \<Rightarrow> raw_event \<Rightarrow> event_record" where
  "handler_event E req b =
     (let h = headers req;
          ip = js_or (first_forwarded h) (js_or (client_ip h) ''unknown'');
          userAgent = js_or (user_agent h) ''unknown'';
          ci = \<lparr>country =
                  (if truthy_str (x_country h) \<or> truthy_str (x_nf_client_connection_ip h)
                   then ''detected'' else ''unknown''),
                referer = js_or (referer_h h) ''direct''\<rparr>
      in build_event E b (hashString (ip @ take 50 userAgent)) ci)"

text \<open>\<open>exports.handler\<close> of \<open>analytics-track.js\<close>.\<close>

definition handler :: "platform \<Rightarrow> env \<Rightarrow> request \<Rightarrow> world \<Rightarrow> response \<times> world" where
  "handler P E req w =
     (if httpMethod req = ''OPTIONS'' then (\<lparr>statusCode = 204, body = EmptyBody\<rparr>, w)
      else if httpMethod req \<noteq> ''POST'' then
        (\<lparr>statusCode = 405, body = ErrorBody ''Method not allowed''\<rparr>, w)
      else
        (case body_in req of
           Unparseable \<Rightarrow> (\<lparr>statusCode = 500, body = ErrorBody ''Internal error''\<rparr>, w)
         | Body b \<Rightarrow>
             if \<not> truthy (eventType b) \<or> \<not> includes_str VALID_EVENTS (eventType b) then
               (\<lparr>statusCode = 400, body = ErrorBody ''Invalid event type''\<rparr>, w)
             else
               (let eventRecord = handler_event E req b
                in if production E then
                     (let eventKey = event_key E;
                          store1 = (blobs w)\<lparr>event_blobs :=
                                      (event_blobs (blobs w))
                                        (eventKey \<mapsto> json_event eventRecord)\<rparr>;
                          store2 = updateProductionStats P (now E) store1 eventRecord (today E)
                      in (\<lparr>statusCode = 200, body = SuccessKey ''production'' eventKey\<rparr>,
                          w\<lparr>blobs := store2\<rparr>))
                   else
                     (let (n, ls) = ingest_local P E eventRecord (localStore w)
                      in (\<lparr>statusCode = 200, body = SuccessStored ''local'' n\<rparr>,
                          w\<lparr>localStore := ls\<rparr>)))))"

text \<open>The same for the ES-module tracker, whose client info reads fewer headers.\<close>

definition tracker_event :: "env \<Rightarrow> request \<Rightarrow> raw_event \<Rightarrow> event_record" where
  "tracker_event E req b =
     (let h = headers req;
          ip = js_or (first_forwarded h) ''unknown'';
          userAgent = js_or (user_agent h) ''unknown'';
          ci = \<lparr>country = js_or (x_country h) ''unknown'',
                referer = js_or (referer_h h) ''direct''\<rparr>
      in build_event E b (hashString (ip @ take 50 userAgent)) ci)"

text \<open>The default export of the ES-module tracker, which always writes to the blob store.\<close>

definition tracker ::
  "platform \<Rightarrow> env \<Rightarrow> request \<Rightarrow> blob_store \<Rightarrow> response \<times> blob_store" where
  "tracker P E req store =
     (if httpMethod req = ''OPTIONS'' then (\<lparr>statusCode = 204, body = EmptyBody\<rparr>, store)
      else if httpMethod req \<noteq> ''POST'' then
        (\<lparr>statusCode = 405, body = ErrorBody ''Method not allowed''\<rparr>, store)
      else
        (case body_in req of
           Unparseable \<Rightarrow> (\<lparr>statusCode = 500, body = ErrorBody ''Internal error''\<rparr>, store)
         | Body b \<Rightarrow>
             if \<not> truthy (eventType b) \<or> \<not> includes_str VALID_EVENTS (eventType b) then
               (\<lparr>statusCode = 400, body = ErrorBody ''Invalid event type''\<rparr>, store)
             else
               (let eventRecord = tracker_event E req b;
                    eventKey = event_key E;
                    store1 = store\<lparr>event_blobs :=
                                      (event_blobs store)(eventKey \<mapsto> json_event eventRecord)\<rparr>;
                    store2 = updateStats P (now E) store1 eventRecord (today E)
                in (\<lparr>statusCode = 200, body = SuccessKey ''production-blobs'' eventKey\<rparr>,
                    store2))))"

subsection \<open>Array helpers of the retrieval function\<close>

text \<open>
  \<open>Array.prototype.sort(cmp)\<close>: a stable sort; \<open>cmp a b > 0\<close> puts \<open>a\<close> after \<open>b\<close>.
\<close>

fun sort_insert :: "('a \<Rightarrow> 'a \<Rightarrow> int) \<Rightarrow> 'a \<Rightarrow> 'a list \<Rightarrow> 'a list" where
  "sort_insert cmp x [] = [x]"
| "sort_insert cmp x (y # ys) =
     (if cmp x y \<le> 0 then x # y # ys else y # sort_insert cmp x ys)"

definition js_sort :: "('a \<Rightarrow> 'a \<Rightarrow> int) \<Rightarrow> 'a list \<Rightarrow> 'a list" where
  "js_sort cmp xs = foldr (sort_insert cmp) xs []"

text \<open>\<open>Array.prototype.indexOf\<close>: the first index holding the value, or \<open>-1\<close>.\<close>

fun indexOf :: "'a list \<Rightarrow> 'a \<Rightarrow> int" where
  "indexOf [] v = - 1"
| "indexOf (x # xs) v =
     (if x = v then 0 else (let i = indexOf xs v in if i < 0 then - 1 else i + 1))"

text \<open>\<open>Math.max(...xs)\<close>; \<open>None\<close> is the \<open>-Infinity\<close> of an empty argument list.\<close>

fun math_max :: "int list \<Rightarrow> int option" where
  "math_max [] = None"
| "math_max (x # xs) = (case math_max xs of None \<Rightarrow> Some x | Some m \<Rightarrow> Some (max x m))"

text \<open>\<open>if (!arr.includes(v)) arr.push(v)\<close>, also \<open>Set.prototype.add\<close> on a set kept as a list.\<close>

definition push_new :: "'a list \<Rightarrow> 'a \<Rightarrow> 'a list" where
  "push_new acc v = (if v \<notin> set acc then acc @ [v] else acc)"

subsection \<open>The summary merge\<close>

definition range_days :: "string \<Rightarrow> nat" where
  "range_days r = (if r = ''1d'' then 1 else if r = ''7d'' then 7 else 30)"

text \<open>\<open>url.searchParams.get('range') || '7d'\<close> in the handler of the retrieval function.\<close>

definition range_param :: "string option \<Rightarrow> string" where
  "range_param p = js_or p ''7d''"

definition add_cards :: "int per_card \<Rightarrow> int per_card \<Rightarrow> int per_card" where
  "add_cards a b = \<lparr>voice = voice a + voice b, value_c = value_c a + value_c b,
                    agent = agent a + agent b\<rparr>"

text \<open>
  \<open>xs.forEach((count, hour) => { tot[hour] += count })\<close> for \<open>xs\<close> no longer than \<open>tot\<close>
  (both have 24 slots).
\<close>

definition add_hourly :: "int list \<Rightarrow> int list \<Rightarrow> int list" where
  "add_hourly tot xs =
     map (\<lambda>i. if i < length xs then tot ! i + xs ! i else tot ! i) [0..<length tot]"

text \<open>\<open>tot[card] += day[card] || 0\<close> on the hover times of the three cards.\<close>

definition add_times :: "platform \<Rightarrow> jsval per_card \<Rightarrow> jsval per_card \<Rightarrow> jsval per_card" where
  "add_times P a b =
     \<lparr>voice = js_plus P (voice a) (or_zero (voice b)),
      value_c = js_plus P (value_c a) (or_zero (value_c b)),
      agent = js_plus P (agent a) (or_zero (agent b))\<rparr>"

text \<open>
  One stored day merged into the running \<open>totals\<close>. On an integer counter \<open>x\<close>,
  \<open>x || 0\<close> is \<open>x\<close>.
\<close>

definition merge_day :: "platform \<Rightarrow> totals \<Rightarrow> 'a totals_scheme \<Rightarrow> totals" where
  "merge_day P tot st =
     \<lparr>pageViews = pageViews tot + pageViews st,
      uniqueVisitors = foldl push_new (uniqueVisitors tot) (uniqueVisitors st),
      cardHovers = add_cards (cardHovers tot) (cardHovers st),
      cardClicks = add_cards (cardClicks tot) (cardClicks st),
      cardHoverTime = add_times P (cardHoverTime tot) (cardHoverTime st),
      sessions = sessions tot + sessions st,
      totalSessionDuration =
        js_plus P (totalSessionDuration tot) (or_zero (totalSessionDuration st)),
      countries = foldl (\<lambda>acc (k, n). add_key k n acc) (countries tot) (countries st),
      referers = foldl (\<lambda>acc (k, n). add_key k n acc) (referers tot) (referers st),
      hourlyActivity = add_hourly (hourlyActivity tot) (hourlyActivity st)\<rparr>"

text \<open>
  One turn of \<open>for (const date of dates)\<close>: a missing day is skipped, a found one is pushed
  to \<open>dailyStats\<close> and merged.
\<close>

definition summary_step ::
  "platform \<Rightarrow> blob_store \<Rightarrow> totals \<times> daily_stats list \<Rightarrow> string
     \<Rightarrow> totals \<times> daily_stats list" where
  "summary_step P store acc d =
     (case stats_blobs store (stats_key d) of
        None \<Rightarrow> acc
      | Some st \<Rightarrow> (merge_day P (fst acc) st, snd acc @ [st]))"

subsection \<open>The summary formatter\<close>

record overview =
  pageViews_o :: int
  uniqueVisitors_o :: nat
  sessions_o :: int
  avgSessionDuration :: jsnum
  bounceRate :: jsnum

record card_activity =
  hovers :: int
  clicks :: int

record engagement = card_activity +
  avgHoverTime :: jsnum
  clickRate :: jsnum
  share :: jsnum

record day_entry =
  date_d :: string
  pageViews_d :: int
  uniqueVisitors_d :: nat
  sessions_d :: int

record summary_response =
  range_s :: string
  generated_s :: int
  mode_s :: string
  overview :: overview
  cardEngagement :: "engagement per_card"
  topCountries :: "(string \<times> int) list"
  topReferers :: "(string \<times> int) list"
  hourlyActivity_s :: "int list"
  peakHour :: int
  dailyStats :: "day_entry list"

text \<open>
  The response field \<open>avgSessionDuration\<close> is the number below followed by the letter s.
\<close>

definition engagement_of :: "platform \<Rightarrow> int \<Rightarrow> int \<Rightarrow> jsval \<Rightarrow> int \<Rightarrow> engagement" where
  "engagement_of P h c ht totalHovers =
     \<lparr>hovers = h, clicks = c,
      avgHoverTime = (if h > 0 then math_round (js_div (to_number P ht) (num h)) else Fin 0),
      clickRate =
        (if h > 0 then math_round (js_mul (js_div (num c) (num h)) (Fin 100)) else Fin 0),
      share =
        (if totalHovers > 0
         then math_round (js_mul (js_div (num h) (num totalHovers)) (Fin 100))
         else Fin 0)\<rparr>"

definition peak_hour :: "int list \<Rightarrow> int" where
  "peak_hour xs = (case math_max xs of None \<Rightarrow> - 1 | Some m \<Rightarrow> indexOf xs m)"

definition top10 :: "(string \<times> int) list \<Rightarrow> (string \<times> int) list" where
  "top10 kvs = take 10 (js_sort (\<lambda>a b. snd b - snd a) kvs)"

definition formatSummaryResponse ::
  "platform \<Rightarrow> int \<Rightarrow> totals \<Rightarrow> 'a dated_stats_scheme list \<Rightarrow> string \<Rightarrow> summary_response" where
  "formatSummaryResponse P t tot ds r =
     (let uniqueCount = length (uniqueVisitors tot);
          avg = (if sessions tot > 0
                 then math_round
                        (js_div
                           (js_div (to_number P (totalSessionDuration tot)) (num (sessions tot)))
                           (Fin 1000))
                 else Fin 0);
          totalHovers = voice (cardHovers tot) + value_c (cardHovers tot) + agent (cardHovers tot);
          totalClicks = voice (cardClicks tot) + value_c (cardClicks tot) + agent (cardClicks tot)
      in \<lparr>range_s = r,
          generated_s = t,
          mode_s = ''production-blobs'',
          overview =
            \<lparr>pageViews_o = pageViews tot,
             uniqueVisitors_o = uniqueCount,
             sessions_o = sessions tot,
             avgSessionDuration = avg,
             bounceRate =
               (if sessions tot > 0 \<and> pageViews tot > 0
                then math_round
                       (js_mul
                          (js_sub (Fin 1) (js_div (num totalClicks) (num (pageViews tot))))
                          (Fin 100))
                else Fin 0)\<rparr>,
          cardEngagement =
            \<lparr>voice = engagement_of P (voice (cardHovers tot)) (voice (cardClicks tot))
                       (voice (cardHoverTime tot)) totalHovers,
             value_c = engagement_of P (value_c (cardHovers tot)) (value_c (cardClicks tot))
                         (value_c (cardHoverTime tot)) totalHovers,
             agent = engagement_of P (agent (cardHovers tot)) (agent (cardClicks tot))
                       (agent (cardHoverTime tot)) totalHovers\<rparr>,
          topCountries = top10 (countries tot),
          topReferers = top10 (referers tot),
          hourlyActivity_s = hourlyActivity tot,
          peakHour = peak_hour (hourlyActivity tot),
          dailyStats =
            map (\<lambda>d. \<lparr>date_d = date d, pageViews_d = pageViews d,
                       uniqueVisitors_d = length (uniqueVisitors d),
                       sessions_d = sessions d\<rparr>) ds\<rparr>)"

text \<open>
  \<open>getSummaryStats\<close>. \<open>dateOf i\<close> is the ISO date \<open>i\<close> days before today, the string the
  loop over \<open>i\<close> pushes. An entry \<open>{ date, ...stats }\<close> of \<open>dailyStats\<close> has the fields of
  the stored day, whose own \<open>date\<close> is the one kept by the spread.
\<close>

definition merge_dates ::
  "platform \<Rightarrow> blob_store \<Rightarrow> string list \<Rightarrow> totals \<times> daily_stats list" where
  "merge_dates P store dates = foldl (summary_step P store) (zero_totals, []) dates"

definition getSummaryStats ::
  "platform \<Rightarrow> (nat \<Rightarrow> string) \<Rightarrow> int \<Rightarrow> blob_store \<Rightarrow> string \<Rightarrow> summary_response" where
  "getSummaryStats P dateOf t store r =
     (let days = range_days r;
          dates = map dateOf [0..<days];
          acc = merge_dates P store dates
      in formatSummaryResponse P t (fst acc) (snd acc) r)"

text \<open>
  \<open>getLocalSummary\<close>: the same loop over the aggregates of the in-memory store, which
  have not been through \<open>JSON.stringify\<close>, and the mode overwritten.
\<close>

definition local_summary_step ::
  "platform \<Rightarrow> local_store \<Rightarrow> totals \<times> dated_stats list \<Rightarrow> string
     \<Rightarrow> totals \<times> dated_stats list" where
  "local_summary_step P store acc d =
     (case stats store d of
        None \<Rightarrow> acc
      | Some st \<Rightarrow> (merge_day P (fst acc) st, snd acc @ [st]))"

definition local_merge ::
  "platform \<Rightarrow> local_store \<Rightarrow> string list \<Rightarrow> totals \<times> dated_stats list" where
  "local_merge P store dates = foldl (local_summary_step P store) (zero_totals, []) dates"

definition getLocalSummary ::
  "platform \<Rightarrow> (nat \<Rightarrow> string) \<Rightarrow> int \<Rightarrow> local_store \<Rightarrow> string \<Rightarrow> summary_response" where
  "getLocalSummary P dateOf t store r =
     (let days = range_days r;
          dates = map dateOf [0..<days];
          acc = local_merge P store dates
      in (formatSummaryResponse P t (fst acc) (snd acc) r)\<lparr>mode_s := ''local''\<rparr>)"

subsection \<open>The realtime formatter\<close>

record stream_entry =
  event_e :: string
  card_e :: "string option"
  timestamp_e :: int
  country_e :: "string option"

record realtime_response =
  generated_r :: int
  mode_r :: string
  window :: string
  activeVisitors :: nat
  pageViews_r :: int
  cardActivity :: "card_activity per_card"
  eventStream :: "stream_entry list"

text \<open>The four accumulators of the \<open>forEach\<close>; the \<open>Set\<close> is a list without repetition.\<close>

record realtime_acc =
  activeSet :: "string list"
  recentHovers :: "int per_card"
  recentClicks :: "int per_card"
  recentPageViews :: int

text \<open>
  \<open>obj[c]++\<close> with no test of the key: on a key other than the three cards JavaScript
  creates a property that the response never reads, and the three counters stay.
\<close>

definition card_incr :: "int per_card \<Rightarrow> string \<Rightarrow> int per_card" where
  "card_incr pc c = (case card_lookup pc c of Some v \<Rightarrow> card_store pc c (v + 1) | None \<Rightarrow> pc)"

definition realtime_step :: "int \<Rightarrow> realtime_acc \<Rightarrow> event_record \<Rightarrow> realtime_acc" where
  "realtime_step fiveMinutesAgo a ev =
     (let a1 = (if timestamp ev \<ge> fiveMinutesAgo
                then a\<lparr>activeSet := push_new (activeSet a) (visitorHash ev)\<rparr> else a);
          a2 = (if event ev = ''page_view''
                then a1\<lparr>recentPageViews := recentPageViews a1 + 1\<rparr> else a1);
          a3 = (if event ev = ''card_hover_start'' \<and> truthy_str (card_id ev)
                then a2\<lparr>recentHovers := card_incr (recentHovers a2) (the (card_id ev))\<rparr>
                else a2)
      in if event ev = ''card_click'' \<and> truthy_str (card_id ev)
         then a3\<lparr>recentClicks := card_incr (recentClicks a3) (the (card_id ev))\<rparr>
         else a3)"

definition stream_entry_of :: "event_record \<Rightarrow> stream_entry" where
  "stream_entry_of e =
     \<lparr>event_e = event e, card_e = card_id e, timestamp_e = timestamp e,
      country_e = map_option country (client e)\<rparr>"

definition formatRealtimeResponse ::
  "event_record list \<Rightarrow> int \<Rightarrow> int \<Rightarrow> realtime_response" where
  "formatRealtimeResponse recentEvents t fiveMinutesAgo =
     (let a = foldl (realtime_step fiveMinutesAgo)
                \<lparr>activeSet = [], recentHovers = zero_cards, recentClicks = zero_cards,
                 recentPageViews = 0\<rparr> recentEvents
      in \<lparr>generated_r = t,
          mode_r = ''production-blobs'',
          window = ''30m'',
          activeVisitors = length (activeSet a),
          pageViews_r = recentPageViews a,
          cardActivity =
            \<lparr>voice = \<lparr>hovers = voice (recentHovers a), clicks = voice (recentClicks a)\<rparr>,
             value_c = \<lparr>hovers = value_c (recentHovers a), clicks = value_c (recentClicks a)\<rparr>,
             agent = \<lparr>hovers = agent (recentHovers a), clicks = agent (recentClicks a)\<rparr>\<rparr>,
          eventStream =
            map stream_entry_of
              (take 20 (js_sort (\<lambda>a b. timestamp b - timestamp a) recentEvents))\<rparr>)"

text \<open>
  \<open>getLocalRealtime\<close>: the events of the last 30 minutes, formatted, with the mode
  overwritten.
\<close>

definition getLocalRealtime :: "int \<Rightarrow> local_store \<Rightarrow> realtime_response" where
  "getLocalRealtime t store =
     (let thirtyMinutesAgo = t - 30 * 60 * 1000;
          fiveMinutesAgo = t - 5 * 60 * 1000;
          recentEvents = filter (\<lambda>e. timestamp e \<ge> thirtyMinutesAgo) (events store)
      in (formatRealtimeResponse recentEvents t fiveMinutesAgo)\<lparr>mode_r := ''local''\<rparr>)"

subsection \<open>Example inputs\<close>

text \<open>
  A platform for the examples: it knows one URL, takes the hour in UTC, prints a
  non-negative integer in decimal and reads a text of decimal digits as that integer;
  a text with another character is not a number. The examples print and read nothing
  else.
\<close>

definition demo_platform :: platform where
  "demo_platform =
     \<lparr>url_hostname =
        (\<lambda>s. if s = ''https://example.com/x'' then Some ''example.com'' else None),
      getHours = (\<lambda>t. nat ((t div 3600000) mod 24)),
      number_to_string =
        (\<lambda>x. case x of
                Fin q \<Rightarrow> toString_radix 10 (nat \<lfloor>q\<rfloor>)
              | PosInf \<Rightarrow> ''Infinity''
              | NegInf \<Rightarrow> ''-Infinity''
              | NaN \<Rightarrow> ''NaN''),
      string_to_number =
        (\<lambda>s. if s \<noteq> [] \<and> list_all (\<lambda>c. c \<in> set ''0123456789'') s
              then r64 (of_nat (foldl (\<lambda>n c. 10 * n + (of_char c - 48)) 0 s))
              else NaN)\<rparr>"

definition demo_env :: "bool \<Rightarrow> env" where
  "demo_env live =
     \<lparr>now = 1700000000000, today = ''2023-11-14'', hour = ''22'', rand = ''k3j9x0q2m'',
      production = live\<rparr>"

definition empty_world :: world where
  "empty_world =
     \<lparr>blobs = \<lparr>event_blobs = Map.empty, stats_blobs = Map.empty\<rparr>,
      localStore = \<lparr>events = [], stats = Map.empty\<rparr>\<rparr>"

definition no_headers :: client_headers where
  "no_headers =
     \<lparr>x_forwarded_for = None, client_ip = None, user_agent = None, referer_h = None,
      x_country = None, x_nf_client_connection_ip = None\<rparr>"

definition post_event :: "jsval \<Rightarrow> client_headers \<Rightarrow> request" where
  "post_event k h =
     \<lparr>httpMethod = ''POST'',
      body_in = Body \<lparr>eventType = k, page_in = None, card_in = None, data_in = None,
                      sessionId_in = None, timestamp_in = None\<rparr>,
      headers = h\<rparr>"

definition demo_event :: "string \<Rightarrow> string \<Rightarrow> int \<Rightarrow> event_record" where
  "demo_event k vh ts =
     \<lparr>event = k, page = ''gateway'', card_id = None, data = \<lparr>duration = JUndefined\<rparr>,
      sessionId = None, visitorHash = vh, timestamp = ts, serverTime = ts,
      client = Some \<lparr>country = ''unknown'', referer = ''direct''\<rparr>\<rparr>"

text \<open>The formatter's \<open>totalHovers\<close> and \<open>totalClicks\<close>.\<close>

definition totalHovers_of :: "'a totals_scheme \<Rightarrow> int" where
  "totalHovers_of tot =
     voice (cardHovers tot) + value_c (cardHovers tot) + agent (cardHovers tot)"

definition totalClicks_of :: "'a totals_scheme \<Rightarrow> int" where
  "totalClicks_of tot =
     voice (cardClicks tot) + value_c (cardClicks tot) + agent (cardClicks tot)"


text \<open>A stored day with the given visitors, and a store holding two days.\<close>

definition day_with :: "string \<Rightarrow> string list \<Rightarrow> daily_stats" where
  "day_with d vs = (zero_daily d 0)\<lparr>pageViews := int (length vs), uniqueVisitors := vs\<rparr>"

definition two_days :: blob_store where
  "two_days =
     \<lparr>event_blobs = Map.empty,
      stats_blobs =
        [stats_key ''2023-11-14'' \<mapsto> day_with ''2023-11-14'' [''a'', ''b''],
         stats_key ''2023-11-13'' \<mapsto> day_with ''2023-11-13'' [''b'']]\<rparr>"

definition demo_dates :: "nat \<Rightarrow> string" where
  "demo_dates i = (if i = 0 then ''2023-11-14'' else if i = 1 then ''2023-11-13'' else ''2023-11-01'')"

text \<open>
  One event 10 minutes old and three in the last 5 minutes, from two visitors, at
  \<open>now = 1700000000000\<close>.
\<close>

definition scenario_events :: "event_record list" where
  "scenario_events =
     [demo_event ''page_view'' ''A'' (1700000000000 - 600000),
      demo_event ''page_view'' ''A'' (1700000000000 - 60000),
      (demo_event ''card_hover_start'' ''B'' (1700000000000 - 30000))\<lparr>card_id := Some ''voice''\<rparr>,
      (demo_event ''card_click'' ''A'' (1700000000000 - 10000))\<lparr>card_id := Some ''agent''\<rparr>]"

text \<open>The number of events of kind \<open>k\<close> on card \<open>c\<close>.\<close>

definition on_card :: "string \<Rightarrow> string \<Rightarrow> event_record list \<Rightarrow> int" where
  "on_card k c evs = int (length (filter (\<lambda>e. event e = k \<and> card_id e = Some c) evs))"

text \<open>A \<open>page_view\<close> posted with a \<open>referer\<close> header.\<close>

definition referred_view :: request where
  "referred_view =
     post_event (JStr ''page_view'') (no_headers\<lparr>referer_h := Some ''https://example.com/x''\<rparr>)"

text \<open>
  Thirty dates of which only the last, 29 days back, has a stored day, and the store
  holding that day with one page view.
\<close>

definition month_dates :: "nat \<Rightarrow> string" where
  "month_dates i = (if i = 29 then ''2023-10-16'' else ''2023-11-14'')"

definition month_old :: blob_store where
  "month_old =
     \<lparr>event_blobs = Map.empty,
      stats_blobs = [stats_key ''2023-10-16'' \<mapsto> day_with ''2023-10-16'' [''a'']]\<rparr>"

text \<open>A \<open>session_end\<close> event with the given \<open>data.duration\<close>.\<close>

definition session_end_with :: "jsval \<Rightarrow> event_record" where
  "session_end_with d = (demo_event ''session_end'' ''v1'' 5)\<lparr>data := \<lparr>duration = d\<rparr>\<rparr>"

text \<open>An event of kind \<open>k\<close> on the voice card with the given \<open>data.duration\<close>.\<close>

definition hover_event :: "string \<Rightarrow> jsval \<Rightarrow> event_record" where
  "hover_event k d =
     (demo_event k ''v1'' 5)\<lparr>card_id := Some ''voice'', data := \<lparr>duration = d\<rparr>\<rparr>"

text \<open>
  The blob store after a hover on the voice card has started and has ended with the
  duration \<open>"abc"\<close>.
\<close>

definition text_duration_store :: blob_store where
  "text_duration_store =
     updateProductionStats demo_platform 9
       (updateProductionStats demo_platform 8 (blobs empty_world)
          (hover_event ''card_hover_start'' JUndefined) ''2023-11-14'')
       (hover_event ''card_hover_end'' (JStr ''abc'')) ''2023-11-14''"

text \<open>
  An in-memory store of two days: a hover on the voice card that ended with the duration
  \<open>1e999\<close>, which \<open>JSON.parse\<close> reads as \<open>Infinity\<close>, and the day before one that ended
  with \<open>-1e999\<close>.
\<close>

definition infinite_days :: local_store where
  "infinite_days =
     \<lparr>events = [],
      stats =
        [''2023-11-14'' \<mapsto>
           local_fold demo_platform (hover_event ''card_hover_end'' (JNum PosInf))
             (local_fold demo_platform (hover_event ''card_hover_start'' JUndefined)
                (zero_dated ''2023-11-14'')),
         ''2023-11-13'' \<mapsto>
           local_fold demo_platform (hover_event ''card_hover_end'' (JNum NegInf))
             (zero_dated ''2023-11-13'')]\<rparr>"

text \<open>Totals with 40 hovers and 23 clicks on the voice card and 3000 ms of hover time.\<close>

definition hover_totals :: totals where
  "hover_totals =
     zero_totals\<lparr>cardHovers := \<lparr>voice = 40, value_c = 0, agent = 0\<rparr>,
                 cardClicks := \<lparr>voice = 23, value_c = 0, agent = 0\<rparr>,
                 cardHoverTime := \<lparr>voice = JNum (Fin 3000), value_c = JNum (Fin 0),
                                   agent = JNum (Fin 0)\<rparr>\<rparr>"

section \<open>Properties\<close>

subsection \<open>Rounding to binary64\<close>

lemma round_even_int: "round_even (of_int k) = k"
  by (simp add: round_even_def)

lemma round_even_ge_floor: "\<lfloor>x\<rfloor> \<le> round_even x"
  by (simp add: round_even_def Let_def)

lemma round_even_le_floor1: "round_even x \<le> \<lfloor>x\<rfloor> + 1"
  by (simp add: round_even_def Let_def)

lemma round_even_ge:
  assumes "of_int k \<le> x"
  shows "k \<le> round_even x"
proof -
  from assms have "k \<le> \<lfloor>x\<rfloor>" by (simp add: le_floor_iff)
  with round_even_ge_floor [of x] show ?thesis by linarith
qed

lemma round_even_le:
  assumes "x \<le> of_int k"
  shows "round_even x \<le> k"
proof (cases "x = of_int \<lfloor>x\<rfloor>")
  case True
  then have "round_even x = \<lfloor>x\<rfloor>"
    by (metis round_even_int)
  moreover from assms have "\<lfloor>x\<rfloor> \<le> k" by (simp add: floor_le_iff)
  ultimately show ?thesis by simp
next
  case False
  then have "of_int \<lfloor>x\<rfloor> < x"
    using of_int_floor_le [of x] by linarith
  with assms have "rat_of_int \<lfloor>x\<rfloor> < of_int k" by linarith
  then have "\<lfloor>x\<rfloor> < k" by simp
  with round_even_le_floor1 [of x] show ?thesis by linarith
qed

lemma round_even_twice:
  assumes "0 \<le> x"
  shows "of_int (round_even x) \<le> 2 * x"
proof (cases "x < 1")
  case True
  with assms have f: "\<lfloor>x\<rfloor> = 0" by (simp add: floor_eq_iff)
  show ?thesis
    using assms True by (auto simp: round_even_def Let_def f)
next
  case False
  have "rat_of_int (round_even x) \<le> of_int (\<lfloor>x\<rfloor> + 1)"
    using round_even_le_floor1 [of x] by (simp only: of_int_le_iff)
  also have "\<dots> \<le> x + 1" by simp
  also have "\<dots> \<le> 2 * x" using False by simp
  finally show ?thesis .
qed

lemma down_steps_le: "down_steps k a \<le> k"
  by (induction k arbitrary: a) simp_all

lemma down_steps_lower:
  "2 ^ 53 \<le> a \<Longrightarrow> 1 \<le> down_steps (Suc k) a \<and> 2 ^ 52 \<le> a / 2 ^ down_steps (Suc k) a"
proof (induction k arbitrary: a)
  case 0
  then show ?case by simp
next
  case (Suc k)
  show ?case
  proof (cases "a / 2 < 2 ^ 53")
    case True
    with Suc.prems show ?thesis by simp
  next
    case False
    then have "2 ^ 53 \<le> a / 2" by simp
    from Suc.IH [OF this] Suc.prems show ?thesis
      by (simp add: field_simps)
  qed
qed

lemma down_steps_upper:
  "0 < a \<Longrightarrow> a < 2 ^ 53 * 2 ^ k \<Longrightarrow> a / 2 ^ down_steps k a < 2 ^ 53"
proof (induction k arbitrary: a)
  case 0
  then show ?case by simp
next
  case (Suc k)
  show ?case
  proof (cases "a < 2 ^ 53")
    case True
    then show ?thesis by simp
  next
    case False
    from Suc.prems have "0 < a / 2" "a / 2 < 2 ^ 53 * 2 ^ k" by simp_all
    from Suc.IH [OF this] False show ?thesis
      by (simp add: field_simps)
  qed
qed


lemma r64_pos_lower:
  assumes "0 < a" and "of_int k \<le> a" and "k \<le> 2 ^ 53"
  shows "r64_pos a = PosInf \<or> (\<exists>y. r64_pos a = Fin y \<and> of_int k \<le> y)"
proof (cases "a < 2 ^ 53")
  case True
  define n where "n = up_steps 1074 a"
  have "rat_of_int (k * 2 ^ n) \<le> a * 2 ^ n"
    using assms(2) by simp
  then have "k * 2 ^ n \<le> round_even (a * 2 ^ n)"
    by (rule round_even_ge)
  then have "rat_of_int (k * 2 ^ n) \<le> of_int (round_even (a * 2 ^ n))"
    by (simp only: of_int_le_iff)
  then have "rat_of_int k \<le> of_int (round_even (a * 2 ^ n)) / 2 ^ n"
    by (simp add: field_simps)
  with True show ?thesis
    by (simp add: r64_pos_def Let_def n_def)
next
  case False
  define n where "n = down_steps 971 a"
  define m where "m = round_even (a / 2 ^ n)"
  from False have big: "2 ^ 53 \<le> a" by simp
  have "Suc 970 = 971" by simp
  with down_steps_lower [OF big, of 970]
  have n1: "1 \<le> n" and lo: "2 ^ 52 \<le> a / 2 ^ n"
    by (simp_all add: n_def)
  have "rat_of_int (2 ^ 52) \<le> a / 2 ^ n" using lo by simp
  then have "2 ^ 52 \<le> m" unfolding m_def by (rule round_even_ge)
  moreover have "(2::int) ^ 1 \<le> 2 ^ n" using n1 by (intro power_increasing) simp_all
  ultimately have "(2::int) ^ 52 * 2 ^ 1 \<le> m * 2 ^ n"
    by (intro mult_mono) simp_all
  then have "k \<le> m * 2 ^ n" using assms(3) by simp
  then have "rat_of_int k \<le> of_int (m * 2 ^ n)" by (simp only: of_int_le_iff)
  then have "rat_of_int k \<le> of_int m * 2 ^ n" by simp
  with False show ?thesis
    by (simp add: r64_pos_def Let_def n_def [symmetric] m_def [symmetric])
qed

lemma r64_pos_upper:
  assumes "0 < a" and "a \<le> of_int k" and "k < 2 ^ 53"
  shows "\<exists>y. r64_pos a = Fin y \<and> y \<le> of_int k"
proof -
  from assms(3) have "rat_of_int k < of_int (2 ^ 53)" by (simp only: of_int_less_iff)
  with assms(2) have small: "a < 2 ^ 53" by simp
  define n where "n = up_steps 1074 a"
  have "a * 2 ^ n \<le> rat_of_int (k * 2 ^ n)"
    using assms(2) by simp
  then have "round_even (a * 2 ^ n) \<le> k * 2 ^ n"
    by (rule round_even_le)
  then have "rat_of_int (round_even (a * 2 ^ n)) \<le> of_int (k * 2 ^ n)"
    by (simp only: of_int_le_iff)
  then have "of_int (round_even (a * 2 ^ n)) / 2 ^ n \<le> rat_of_int k"
    by (simp add: field_simps)
  with small show ?thesis
    by (simp add: r64_pos_def Let_def n_def)
qed

lemma r64_pos_twice:
  assumes "0 < a" and "r64_pos a = Fin y"
  shows "0 \<le> y \<and> y \<le> 2 * a"
proof (cases "a < 2 ^ 53")
  case True
  define n where "n = up_steps 1074 a"
  have z: "0 \<le> a * 2 ^ n" using assms(1) by simp
  from True assms(2) have y: "y = of_int (round_even (a * 2 ^ n)) / 2 ^ n"
    by (simp add: r64_pos_def Let_def n_def)
  have "0 \<le> round_even (a * 2 ^ n)"
    using z by (intro round_even_ge) simp
  moreover have "of_int (round_even (a * 2 ^ n)) \<le> 2 * (a * 2 ^ n)"
    using z by (rule round_even_twice)
  ultimately show ?thesis
    unfolding y by (simp add: field_simps)
next
  case False
  define n where "n = down_steps 971 a"
  have z: "0 \<le> a / 2 ^ n" using assms(1) by simp
  from False assms(2) have y: "y = of_int (round_even (a / 2 ^ n)) * 2 ^ n"
    by (simp add: r64_pos_def Let_def n_def split: if_splits)
  have "0 \<le> round_even (a / 2 ^ n)"
    using z by (intro round_even_ge) simp
  moreover have "of_int (round_even (a / 2 ^ n)) \<le> 2 * (a / 2 ^ n)"
    using z by (rule round_even_twice)
  ultimately show ?thesis
    unfolding y by (simp add: field_simps)
qed

lemma r64_pos_finite:
  assumes "0 < a" and "a \<le> max_double"
  shows "is_Fin (r64_pos a)"
proof (cases "a < 2 ^ 53")
  case True
  then show ?thesis by (simp add: r64_pos_def Let_def)
next
  case False
  define n where "n = down_steps 971 a"
  define m where "m = round_even (a / 2 ^ n)"
  have "max_double < 2 ^ 53 * 2 ^ 971" by (simp add: max_double_def)
  with assms(2) have "a < 2 ^ 53 * 2 ^ 971" by simp
  from down_steps_upper [OF assms(1) this]
  have up: "a / 2 ^ n < 2 ^ 53" by (simp add: n_def)
  have nle: "n \<le> 971" unfolding n_def by (rule down_steps_le)
  have "rat_of_int m * 2 ^ n < 2 ^ 1024"
  proof (cases "n = 971")
    case True
    from assms(2) have "a / 2 ^ 971 \<le> rat_of_int (2 ^ 53 - 1)"
      by (simp add: max_double_def field_simps)
    then have "m \<le> 2 ^ 53 - 1"
      unfolding m_def True by (rule round_even_le)
    then have "rat_of_int m \<le> of_int (2 ^ 53 - 1)" by (simp only: of_int_le_iff)
    then have "rat_of_int m * 2 ^ 971 \<le> of_int (2 ^ 53 - 1) * 2 ^ 971"
      by (intro mult_right_mono) simp_all
    also have "\<dots> < 2 ^ 1024" by simp
    finally show ?thesis by (simp add: True)
  next
    case False
    with nle have n970: "n \<le> 970" by simp
    from up have "a / 2 ^ n \<le> rat_of_int (2 ^ 53)" by simp
    then have "m \<le> 2 ^ 53" unfolding m_def by (rule round_even_le)
    then have "rat_of_int m \<le> of_int (2 ^ 53)" by (simp only: of_int_le_iff)
    moreover have "(2::rat) ^ n \<le> 2 ^ 970" using n970 by (intro power_increasing) simp_all
    ultimately have "rat_of_int m * 2 ^ n \<le> of_int (2 ^ 53) * 2 ^ 970"
      by (intro mult_mono) simp_all
    also have "\<dots> < 2 ^ 1024" by simp
    finally show ?thesis .
  qed
  with up False show ?thesis
    by (simp add: r64_pos_def Let_def n_def [symmetric] m_def [symmetric] not_le)
qed


lemma r64_zero: "r64 0 = Fin 0"
  by (simp add: r64_def)

lemma r64_minus: "r64 (- q) = js_neg (r64 q)"
proof -
  have "js_neg (js_neg x) = x" for x by (cases x) simp_all
  then show ?thesis by (simp add: r64_def)
qed

lemma r64_ge:
  assumes "of_int k \<le> q" and "0 \<le> k" and "k \<le> 2 ^ 53"
  shows "r64 q = PosInf \<or> (\<exists>y. r64 q = Fin y \<and> of_int k \<le> y)"
proof (cases "q = 0")
  case True
  with assms(1) show ?thesis by (simp add: r64_def)
next
  case False
  from assms(1,2) have "0 \<le> q" by (meson of_int_0_le_iff order_trans)
  with False have pos: "0 < q" by simp
  with r64_pos_lower [OF pos assms(1) assms(3)] show ?thesis
    by (simp add: r64_def)
qed

lemma r64_le:
  assumes "0 \<le> q" and "q \<le> of_int k" and "k < 2 ^ 53"
  shows "\<exists>y. r64 q = Fin y \<and> 0 \<le> y \<and> y \<le> of_int k"
proof (cases "q = 0")
  case True
  with assms(2) show ?thesis by (simp add: r64_def)
next
  case False
  with assms(1) have pos: "0 < q" by simp
  from r64_pos_upper [OF pos assms(2) assms(3)] obtain y
    where y: "r64_pos q = Fin y" "y \<le> of_int k" by blast
  from r64_pos_twice [OF pos y(1)] have "0 \<le> y" by simp
  with y pos show ?thesis by (simp add: r64_def)
qed

lemma r64_int:
  assumes "\<bar>i\<bar> < 2 ^ 53"
  shows "r64 (of_int i) = Fin (of_int i)"
proof -
  have nonneg: "r64 (of_int j) = Fin (of_int j)" if "0 \<le> j" "j < 2 ^ 53" for j
  proof -
    from that have j0: "(0::rat) \<le> of_int j" by simp
    from r64_le [OF j0 _ that(2)] obtain y
      where y: "r64 (of_int j) = Fin y" "y \<le> of_int j" by auto
    from r64_ge [of j "of_int j"] that y have "of_int j \<le> y" by auto
    with y show ?thesis by simp
  qed
  show ?thesis
  proof (cases "0 \<le> i")
    case True
    with assms show ?thesis by (intro nonneg) simp_all
  next
    case False
    with assms have "r64 (of_int (- i)) = Fin (of_int (- i))"
      by (intro nonneg) simp_all
    then have "js_neg (r64 (of_int i)) = Fin (- of_int i)"
      by (simp add: r64_minus)
    then show ?thesis by (cases "r64 (of_int i)") simp_all
  qed
qed

lemma r64_bounded:
  assumes "\<bar>q\<bar> \<le> B" and "B \<le> max_double"
  shows "\<exists>y. r64 q = Fin y \<and> \<bar>y\<bar> \<le> 2 * B"
proof -
  have pos: "\<exists>y. r64_pos a = Fin y \<and> 0 \<le> y \<and> y \<le> 2 * B" if "0 < a" "a \<le> B" for a
  proof -
    from that assms(2) have "a \<le> max_double" by simp
    from r64_pos_finite [OF that(1) this] obtain y where y: "r64_pos a = Fin y"
      by (cases "r64_pos a") simp_all
    from r64_pos_twice [OF that(1) y] that(2) have "0 \<le> y" "y \<le> 2 * B" by simp_all
    with y show ?thesis by simp
  qed
  consider "q = 0" | "0 < q" | "q < 0" by linarith
  then show ?thesis
  proof cases
    case 1
    with assms(1) show ?thesis by (simp add: r64_def)
  next
    case 2
    with assms(1) pos [of q] show ?thesis by (auto simp: r64_def)
  next
    case 3
    with assms(1) pos [of "- q"] show ?thesis by (auto simp: r64_def)
  qed
qed

lemma r64_not_NaN: "r64 q \<noteq> NaN"
proof -
  have "r64_pos a \<noteq> NaN" for a by (simp add: r64_pos_def Let_def)
  moreover have "js_neg x \<noteq> NaN" if "x \<noteq> NaN" for x using that by (cases x) simp_all
  ultimately show ?thesis by (simp add: r64_def)
qed


text \<open>Rules that evaluate a rounding at a numeral.\<close>

lemma floor_rat_numeral:
  "\<lfloor>(numeral a / numeral b :: rat)\<rfloor> = numeral a div numeral b"
  using floor_divide_of_int_eq [of "numeral a" "numeral b", where ?'a = rat] by simp

lemma floor_rat_neg_numeral:
  "\<lfloor>(- (numeral a / numeral b) :: rat)\<rfloor> = - numeral a div numeral b"
  using floor_divide_of_int_eq [of "- numeral a" "numeral b", where ?'a = rat] by simp

lemma up_steps_numeral:
  "up_steps (numeral k) a = (if 2 ^ 52 \<le> a then 0 else Suc (up_steps (pred_numeral k) (2 * a)))"
  by (simp add: numeral_eq_Suc)

lemma down_steps_numeral:
  "down_steps (numeral k) a =
     (if a < 2 ^ 53 then 0 else Suc (down_steps (pred_numeral k) (a / 2)))"
  by (simp add: numeral_eq_Suc)

lemmas r64_eval =
  r64_def r64_pos_def up_steps_numeral down_steps_numeral round_even_def Let_def
  floor_rat_numeral floor_rat_neg_numeral

subsection \<open>The fold, field by field\<close>

lemma fold_event_pageViews:
  "pageViews (fold_event P t ev s) = pageViews (fold_kind P ev s)"
  by (simp add: fold_event_def fold_hour_def fold_referer_def fold_country_def Let_def
      split: option.split)

lemma fold_event_uniqueVisitors:
  "uniqueVisitors (fold_event P t ev s) = uniqueVisitors (fold_kind P ev s)"
  by (simp add: fold_event_def fold_hour_def fold_referer_def fold_country_def Let_def
      split: option.split)

lemma fold_event_totalSessionDuration:
  "totalSessionDuration (fold_event P t ev s) = totalSessionDuration (fold_kind P ev s)"
  by (simp add: fold_event_def fold_hour_def fold_referer_def fold_country_def Let_def
      split: option.split)

lemma local_fold_pageViews:
  "pageViews (local_fold P ev s) = pageViews (fold_kind P ev s)"
  by (simp add: local_fold_def fold_hour_def fold_country_def Let_def split: option.split)

lemma local_fold_uniqueVisitors:
  "uniqueVisitors (local_fold P ev s) = uniqueVisitors (fold_kind P ev s)"
  by (simp add: local_fold_def fold_hour_def fold_country_def Let_def split: option.split)

lemma local_fold_totalSessionDuration:
  "totalSessionDuration (local_fold P ev s) = totalSessionDuration (fold_kind P ev s)"
  by (simp add: local_fold_def fold_hour_def fold_country_def Let_def split: option.split)

text \<open>
  What the two store-level updates leave under the day's key: the folded aggregate as
  \<open>JSON.stringify\<close> keeps it.
\<close>

lemma updateProductionStats_stored:
  "stats_blobs (updateProductionStats P t store ev d) (stats_key d) =
     Some (json_stats (fold_event P t ev
             (case stats_blobs store (stats_key d) of
                None \<Rightarrow> zero_daily d t
              | Some s \<Rightarrow> s)))"
  by (simp add: updateProductionStats_def Let_def)

lemma updateStats_stored:
  "stats_blobs (updateStats P t store ev d) (stats_key d) =
     Some (json_stats (fold_event P t ev
             (case stats_blobs store (stats_key d) of
                None \<Rightarrow> zero_daily d t
              | Some s \<Rightarrow> s)))"
  by (simp add: updateStats_def Let_def)

subsection \<open>Validation of the event kind\<close>

lemma valid_event_iff:
  "(truthy v \<and> includes_str VALID_EVENTS v) = (v \<in> JStr ` set VALID_EVENTS)"
proof (cases v)
  case (JStr s)
  have "s \<in> set VALID_EVENTS \<Longrightarrow> s \<noteq> []"
    by (auto simp: VALID_EVENTS_def)
  with JStr show ?thesis by auto
qed auto

text \<open>
  Claim C1. A POST whose body has no \<open>event\<close> field, or one that is not one of the twelve
  strings of \<open>VALID_EVENTS\<close>, is answered with status 400 and the error
  \<open>Invalid event type\<close>, and the stores are returned as they were: no event record is
  written and no daily aggregate is touched. This holds for the CommonJS handler, in
  production and in local-dev mode, and for the ES-module tracker.
\<close>

theorem invalid_event_rejected:
  assumes "httpMethod req = ''POST''"
    and "body_in req = Body b"
    and "eventType b \<notin> JStr ` set VALID_EVENTS"
  shows "handler P E req w =
           (\<lparr>statusCode = 400, body = ErrorBody ''Invalid event type''\<rparr>, w)
         \<and> tracker P E req store =
           (\<lparr>statusCode = 400, body = ErrorBody ''Invalid event type''\<rparr>, store)"
proof -
  from assms(3) have "\<not> truthy (eventType b) \<or> \<not> includes_str VALID_EVENTS (eventType b)"
    using valid_event_iff [of "eventType b"] by blast
  with assms(1,2) show ?thesis
    by (simp add: handler_def tracker_def)
qed

theorem invalid_event_rejected_witness:
  "httpMethod (post_event (JStr ''purchase'') no_headers) = ''POST''
   \<and> handler demo_platform (demo_env True) (post_event (JStr ''purchase'') no_headers)
         empty_world =
       (\<lparr>statusCode = 400, body = ErrorBody ''Invalid event type''\<rparr>, empty_world)
   \<and> handler demo_platform (demo_env False) (post_event JUndefined no_headers) empty_world =
       (\<lparr>statusCode = 400, body = ErrorBody ''Invalid event type''\<rparr>, empty_world)
   \<and> tracker demo_platform (demo_env True) (post_event (JNum (Fin 7)) no_headers)
         (blobs empty_world) =
       (\<lparr>statusCode = 400, body = ErrorBody ''Invalid event type''\<rparr>, blobs empty_world)"
  using
    invalid_event_rejected [of "post_event (JStr ''purchase'') no_headers" _ demo_platform
      "demo_env True" empty_world]
    invalid_event_rejected [of "post_event JUndefined no_headers" _ demo_platform
      "demo_env False" empty_world]
    invalid_event_rejected [of "post_event (JNum (Fin 7)) no_headers" _ demo_platform
      "demo_env True" _ "blobs empty_world"]
  by (simp add: post_event_def VALID_EVENTS_def)

text \<open>
  Conversely, a POST with one of the twelve kinds is answered with status 200 and leaves
  the event record under its key (production, as \<open>JSON.stringify\<close> keeps it) or at the
  end of the log (local dev).
\<close>

lemma valid_event_stored:
  assumes "httpMethod req = ''POST''" and "body_in req = Body b"
    and "eventType b \<in> JStr ` set VALID_EVENTS"
  shows "statusCode (fst (handler P E req w)) = 200"
    and "production E \<Longrightarrow>
         event_blobs (blobs (snd (handler P E req w))) (event_key E)
           = Some (json_event (handler_event E req b))"
    and "\<not> production E \<Longrightarrow>
         last (events (localStore (snd (handler P E req w)))) = handler_event E req b"
    and "statusCode (fst (tracker P E req store)) = 200"
    and "event_blobs (snd (tracker P E req store)) (event_key E)
           = Some (json_event (tracker_event E req b))"
proof -
  from assms(3) have v: "truthy (eventType b)" "includes_str VALID_EVENTS (eventType b)"
    using valid_event_iff [of "eventType b"] by blast+
  show "statusCode (fst (handler P E req w)) = 200"
    using assms(1,2) v by (simp add: handler_def Let_def split_def)
  show "event_blobs (blobs (snd (handler P E req w))) (event_key E)
          = Some (json_event (handler_event E req b))" if "production E"
    using assms(1,2) v that by (simp add: handler_def Let_def updateProductionStats_def)
  show "last (events (localStore (snd (handler P E req w)))) = handler_event E req b"
    if "\<not> production E"
    using assms(1,2) v that by (simp add: handler_def Let_def split_def ingest_local_def)
  show "statusCode (fst (tracker P E req store)) = 200"
    using assms(1,2) v by (simp add: tracker_def Let_def)
  show "event_blobs (snd (tracker P E req store)) (event_key E)
          = Some (json_event (tracker_event E req b))"
    using assms(1,2) v by (simp add: tracker_def Let_def updateStats_def)
qed

subsection \<open>Page views and unique visitors\<close>

lemma fold_kind_page_view:
  "event ev = ''page_view'' \<Longrightarrow>
   pageViews (fold_kind P ev s) = pageViews s + 1
   \<and> uniqueVisitors (fold_kind P ev s) = push_new (uniqueVisitors s) (visitorHash ev)"
  by (simp add: fold_kind_def push_new_def Let_def)

lemma push_new_twice: "push_new (push_new xs v) v = push_new xs v"
  by (simp add: push_new_def)

lemma length_push_new: "length (push_new xs v) \<le> Suc (length xs)"
  by (simp add: push_new_def)

text \<open>
  Claim C5. Folding the same \<open>page_view\<close> event twice into a daily aggregate raises
  \<open>pageViews\<close> by exactly 2 and lengthens \<open>uniqueVisitors\<close> by at most 1: the second
  fold leaves the visitor list as the first one made it. The same holds for the local fold.
\<close>

theorem page_view_folded_twice:
  assumes "event ev = ''page_view''"
  shows "pageViews (fold_event P t2 ev (fold_event P t1 ev s)) = pageViews s + 2
         \<and> length (uniqueVisitors (fold_event P t2 ev (fold_event P t1 ev s)))
             \<le> length (uniqueVisitors s) + 1
         \<and> uniqueVisitors (fold_event P t2 ev (fold_event P t1 ev s))
             = uniqueVisitors (fold_event P t1 ev s)
         \<and> pageViews (local_fold P ev (local_fold P ev l)) = pageViews l + 2
         \<and> length (uniqueVisitors (local_fold P ev (local_fold P ev l)))
             \<le> length (uniqueVisitors l) + 1"
  using assms
  by (simp add: fold_event_pageViews fold_event_uniqueVisitors local_fold_pageViews
      local_fold_uniqueVisitors fold_kind_page_view push_new_twice length_push_new)

theorem page_view_folded_twice_witness:
  "event (demo_event ''page_view'' ''v1'' 5) = ''page_view''
   \<and> pageViews
     (fold_event demo_platform 9 (demo_event ''page_view'' ''v1'' 5)
        (fold_event demo_platform 8 (demo_event ''page_view'' ''v1'' 5)
           (zero_daily ''2023-11-14'' 0))) = 2
   \<and> uniqueVisitors
       (fold_event demo_platform 9 (demo_event ''page_view'' ''v1'' 5)
          (fold_event demo_platform 8 (demo_event ''page_view'' ''v1'' 5)
             (zero_daily ''2023-11-14'' 0))) = [''v1'']"
  using page_view_folded_twice [of "demo_event ''page_view'' ''v1'' 5" demo_platform 9 8
      "zero_daily ''2023-11-14'' 0"]
  by (simp add: demo_event_def zero_daily_def zero_totals_def totals.defs
      fold_event_uniqueVisitors fold_kind_def push_new_def)

subsection \<open>The peak hour\<close>

lemma math_max_Max: "xs \<noteq> [] \<Longrightarrow> math_max xs = Some (Max (set xs))"
proof (induction xs)
  case Nil
  then show ?case by simp
next
  case (Cons x xs)
  show ?case
  proof (cases "xs = []")
    case True
    then show ?thesis by simp
  next
    case False
    with Cons.IH show ?thesis by simp
  qed
qed

lemma indexOf_first:
  "v \<in> set xs \<Longrightarrow>
   0 \<le> indexOf xs v \<and> nat (indexOf xs v) < length xs \<and> xs ! nat (indexOf xs v) = v
   \<and> (\<forall>j < nat (indexOf xs v). xs ! j \<noteq> v)"
proof (induction xs)
  case Nil
  then show ?case by simp
next
  case (Cons x xs)
  show ?case
  proof (cases "x = v")
    case True
    then show ?thesis by simp
  next
    case False
    with Cons.prems have "v \<in> set xs" by simp
    from Cons.IH [OF this] False show ?thesis
      by (auto simp: Let_def nat_add_distrib nth_Cons split: nat.split)
  qed
qed


lemma peakHour_format:
  "peakHour (formatSummaryResponse P t tot ds r) = peak_hour (hourlyActivity tot)"
  by (simp add: formatSummaryResponse_def Let_def)

lemma peak_hour_first_max:
  assumes "xs \<noteq> []"
  shows "0 \<le> peak_hour xs \<and> nat (peak_hour xs) < length xs
         \<and> xs ! nat (peak_hour xs) = Max (set xs)
         \<and> (\<forall>j < nat (peak_hour xs). xs ! j < Max (set xs))"
proof -
  have m: "Max (set xs) \<in> set xs"
    using assms by (simp add: Max_in)
  have p: "peak_hour xs = indexOf xs (Max (set xs))"
    using assms by (simp add: peak_hour_def math_max_Max)
  note f = indexOf_first [OF m]
  have "xs ! j < Max (set xs)" if "j < nat (indexOf xs (Max (set xs)))" for j
  proof -
    from that f have "j < length xs" and "xs ! j \<noteq> Max (set xs)" by auto
    moreover from \<open>j < length xs\<close> have "xs ! j \<le> Max (set xs)" by simp
    ultimately show ?thesis by linarith
  qed
  with f p show ?thesis by simp
qed

text \<open>
  Claim C8. On a 24-slot \<open>hourlyActivity\<close> the response's \<open>peakHour\<close> is an index from 0
  to 23 that holds the maximum of the array, and every earlier slot holds a strictly
  smaller value (ties go to the lowest index); on the all-zero array \<open>peakHour\<close> is 0.
\<close>

theorem peak_hour_is_first_maximum:
  assumes "length (hourlyActivity tot) = 24"
  shows "0 \<le> peakHour (formatSummaryResponse P t tot ds r)
         \<and> nat (peakHour (formatSummaryResponse P t tot ds r)) < 24
         \<and> hourlyActivity tot ! nat (peakHour (formatSummaryResponse P t tot ds r))
             = Max (set (hourlyActivity tot))
         \<and> (\<forall>j < nat (peakHour (formatSummaryResponse P t tot ds r)).
               hourlyActivity tot ! j < Max (set (hourlyActivity tot)))
         \<and> (hourlyActivity tot = replicate 24 0 \<longrightarrow>
               peakHour (formatSummaryResponse P t tot ds r) = 0)"
proof -
  from assms have ne: "hourlyActivity tot \<noteq> []" by auto
  note f = peak_hour_first_max [OF ne]
  have "peak_hour (hourlyActivity tot) = 0" if z: "hourlyActivity tot = replicate 24 0"
  proof (rule ccontr)
    assume "peak_hour (hourlyActivity tot) \<noteq> 0"
    with f have "0 < nat (peak_hour (hourlyActivity tot))" by simp
    with f have "hourlyActivity tot ! 0 < Max (set (hourlyActivity tot))" by blast
    with z show False by simp
  qed
  with f assms show ?thesis by (simp add: peakHour_format)
qed

theorem peak_hour_is_first_maximum_witness:
  "length (hourlyActivity zero_totals) = 24
   \<and> peakHour (formatSummaryResponse demo_platform 0 zero_totals ([] :: daily_stats list) ''7d'') = 0
   \<and> peakHour (formatSummaryResponse demo_platform 0
        (zero_totals\<lparr>hourlyActivity := [0, 3, 1, 3] @ replicate 20 0\<rparr>)
        ([] :: daily_stats list) ''7d'') = 1"
proof -
  have h: "length (hourlyActivity zero_totals) = 24"
    by (simp add: zero_totals_def)
  have z: "hourlyActivity zero_totals = replicate 24 0"
    by (simp add: zero_totals_def)
  have e: "peak_hour ([0, 3, 1, 3] @ replicate 20 0) = 1"
    by code_simp
  from peak_hour_is_first_maximum [OF h, of demo_platform 0 "[] :: daily_stats list" "''7d''"] z h e
  show ?thesis by (simp add: peakHour_format)
qed

subsection \<open>Unique visitors across days\<close>

lemma set_foldl_push_new: "set (foldl push_new acc vs) = set acc \<union> set vs"
  by (induction vs arbitrary: acc) (auto simp: push_new_def)

lemma length_foldl_push_new: "length (foldl push_new acc vs) \<le> length acc + length vs"
proof (induction vs arbitrary: acc)
  case Nil
  then show ?case by simp
next
  case (Cons v vs)
  have "length (foldl push_new (push_new acc v) vs) \<le> length (push_new acc v) + length vs"
    by (rule Cons.IH)
  also have "\<dots> \<le> Suc (length acc) + length vs"
    using length_push_new [of acc v] by simp
  finally show ?case by simp
qed

lemma distinct_foldl_push_new: "distinct acc \<Longrightarrow> distinct (foldl push_new acc vs)"
  by (induction vs arbitrary: acc) (auto simp: push_new_def)

lemma uniqueVisitors_merge_day:
  "uniqueVisitors (merge_day P tot st) = foldl push_new (uniqueVisitors tot) (uniqueVisitors st)"
  by (simp add: merge_day_def)

lemma foldl_summary_days:
  "snd (foldl (summary_step P store) acc ds) =
     snd acc @ List.map_filter (\<lambda>d. stats_blobs store (stats_key d)) ds"
  by (induction ds arbitrary: acc)
    (simp_all add: summary_step_def List.map_filter_simps split: option.split)

lemma foldl_summary_unique:
  "uniqueVisitors (fst (foldl (summary_step P store) acc ds)) =
     foldl push_new (uniqueVisitors (fst acc))
       (concat (map uniqueVisitors
          (List.map_filter (\<lambda>d. stats_blobs store (stats_key d)) ds)))"
  by (induction ds arbitrary: acc)
    (simp_all add: summary_step_def List.map_filter_simps uniqueVisitors_merge_day
      split: option.split)

lemma merge_dates_unique:
  "uniqueVisitors (fst (merge_dates P store ds)) =
     foldl push_new [] (concat (map uniqueVisitors (snd (merge_dates P store ds))))"
  by (simp add: merge_dates_def foldl_summary_unique foldl_summary_days zero_totals_def)

lemma overview_unique_format:
  "uniqueVisitors_o (overview (formatSummaryResponse P t tot ds r)) = length (uniqueVisitors tot)"
  by (simp add: formatSummaryResponse_def Let_def)

lemma dailyStats_unique_format:
  "map uniqueVisitors_d (dailyStats (formatSummaryResponse P t tot ds r)) =
     map (\<lambda>s. length (uniqueVisitors s)) ds"
  by (simp add: formatSummaryResponse_def Let_def comp_def)

text \<open>
  Claim C6. The unique-visitor count of the summary is at most the sum of the per-day
  counts that the same response lists: the merged \<open>uniqueVisitors\<close> is, without
  repetition, the union of the merged days' visitor lists.
\<close>

theorem merged_unique_le_sum:
  "uniqueVisitors_o (overview (getSummaryStats P dateOf t store r))
     \<le> sum_list (map uniqueVisitors_d (dailyStats (getSummaryStats P dateOf t store r)))
   \<and> set (uniqueVisitors (fst (merge_dates P store dates)))
       = (\<Union>s \<in> set (snd (merge_dates P store dates)). set (uniqueVisitors s))
   \<and> distinct (uniqueVisitors (fst (merge_dates P store dates)))
   \<and> length (uniqueVisitors (fst (merge_dates P store dates)))
       \<le> sum_list (map (\<lambda>s. length (uniqueVisitors s)) (snd (merge_dates P store dates)))"
proof -
  have l: "length (uniqueVisitors (fst (merge_dates P store ds)))
       \<le> sum_list (map (\<lambda>s. length (uniqueVisitors s)) (snd (merge_dates P store ds)))" for ds
    using length_foldl_push_new [of "[]"
        "concat (map uniqueVisitors (snd (merge_dates P store ds)))"]
    by (simp add: merge_dates_unique [symmetric] length_concat comp_def)
  have s: "set (uniqueVisitors (fst (merge_dates P store dates)))
       = (\<Union>s \<in> set (snd (merge_dates P store dates)). set (uniqueVisitors s))"
    by (simp add: merge_dates_unique [of P store dates] set_foldl_push_new)
  have d: "distinct (uniqueVisitors (fst (merge_dates P store dates)))"
    by (simp add: merge_dates_unique [of P store dates] distinct_foldl_push_new)
  from l s d show ?thesis
    by (simp add: getSummaryStats_def Let_def overview_unique_format dailyStats_unique_format)
qed

theorem merged_unique_le_sum_witness:
  "uniqueVisitors_o (overview (getSummaryStats demo_platform demo_dates 0 two_days ''7d'')) = 2
   \<and> map uniqueVisitors_d (dailyStats (getSummaryStats demo_platform demo_dates 0 two_days ''7d'')) = [2, 1]
   \<and> uniqueVisitors_o (overview (getSummaryStats demo_platform demo_dates 0 two_days ''7d''))
     \<le> sum_list (map uniqueVisitors_d (dailyStats (getSummaryStats demo_platform demo_dates 0 two_days ''7d'')))"
proof -
  have e: "uniqueVisitors_o (overview (getSummaryStats demo_platform demo_dates 0 two_days ''7d'')) = 2"
    "map uniqueVisitors_d (dailyStats (getSummaryStats demo_platform demo_dates 0 two_days ''7d'')) = [2, 1]"
    by code_simp+
  from merged_unique_le_sum [of demo_platform demo_dates 0 two_days "''7d''"] e
  show ?thesis by simp
qed

subsection \<open>The realtime report\<close>

lemma realtime_step_fields:
  "activeSet (realtime_step five a ev) =
     (if five \<le> timestamp ev then push_new (activeSet a) (visitorHash ev) else activeSet a)"
  "recentPageViews (realtime_step five a ev) =
     recentPageViews a + (if event ev = ''page_view'' then 1 else 0)"
  "recentHovers (realtime_step five a ev) =
     (if event ev = ''card_hover_start'' \<and> truthy_str (card_id ev)
      then card_incr (recentHovers a) (the (card_id ev)) else recentHovers a)"
  "recentClicks (realtime_step five a ev) =
     (if event ev = ''card_click'' \<and> truthy_str (card_id ev)
      then card_incr (recentClicks a) (the (card_id ev)) else recentClicks a)"
  by (simp_all add: realtime_step_def Let_def)

lemma card_incr_fields:
  "voice (card_incr pc c) = voice pc + (if c = ''voice'' then 1 else 0)"
  "value_c (card_incr pc c) = value_c pc + (if c = ''value'' then 1 else 0)"
  "agent (card_incr pc c) = agent pc + (if c = ''agent'' then 1 else 0)"
  by (simp_all add: card_incr_def card_lookup_def card_store_def)

lemma truthy_card: "(truthy_str c \<and> the c = k) = (c = Some k \<and> k \<noteq> [])"
  by (cases c) auto

lemma foldl_activeSet:
  "activeSet (foldl (realtime_step five) a evs) =
     foldl push_new (activeSet a) (map visitorHash (filter (\<lambda>e. five \<le> timestamp e) evs))"
  by (induction evs arbitrary: a) (simp_all add: realtime_step_fields)

lemma foldl_recentPageViews:
  "recentPageViews (foldl (realtime_step five) a evs) =
     recentPageViews a + int (length (filter (\<lambda>e. event e = ''page_view'') evs))"
  by (induction evs arbitrary: a) (simp_all add: realtime_step_fields)


lemma foldl_recentHovers:
  "voice (recentHovers (foldl (realtime_step five) a evs)) =
     voice (recentHovers a) + on_card ''card_hover_start'' ''voice'' evs
   \<and> value_c (recentHovers (foldl (realtime_step five) a evs)) =
     value_c (recentHovers a) + on_card ''card_hover_start'' ''value'' evs
   \<and> agent (recentHovers (foldl (realtime_step five) a evs)) =
     agent (recentHovers a) + on_card ''card_hover_start'' ''agent'' evs"
proof (induction evs arbitrary: a)
  case Nil
  then show ?case by (simp add: on_card_def)
next
  case (Cons e evs)
  show ?case
    using Cons.IH [of "realtime_step five a e"]
    by (cases "card_id e")
      (auto simp: realtime_step_fields card_incr_fields on_card_def)
qed

lemma foldl_recentClicks:
  "voice (recentClicks (foldl (realtime_step five) a evs)) =
     voice (recentClicks a) + on_card ''card_click'' ''voice'' evs
   \<and> value_c (recentClicks (foldl (realtime_step five) a evs)) =
     value_c (recentClicks a) + on_card ''card_click'' ''value'' evs
   \<and> agent (recentClicks (foldl (realtime_step five) a evs)) =
     agent (recentClicks a) + on_card ''card_click'' ''agent'' evs"
proof (induction evs arbitrary: a)
  case Nil
  then show ?case by (simp add: on_card_def)
next
  case (Cons e evs)
  show ?case
    using Cons.IH [of "realtime_step five a e"]
    by (cases "card_id e")
      (auto simp: realtime_step_fields card_incr_fields on_card_def)
qed

lemma length_push_all: "length (foldl push_new [] vs) = card (set vs)"
proof -
  have "distinct (foldl push_new [] vs)"
    by (rule distinct_foldl_push_new) simp
  then have "length (foldl push_new [] vs) = card (set (foldl push_new [] vs))"
    by (simp add: distinct_card)
  then show ?thesis by (simp add: set_foldl_push_new)
qed

lemma mset_sort_insert: "mset (sort_insert cmp x xs) = add_mset x (mset xs)"
  by (induction xs) simp_all

lemma mset_js_sort: "mset (js_sort cmp xs) = mset xs"
  by (induction xs) (simp_all add: js_sort_def mset_sort_insert)

lemma set_sort_insert: "set (sort_insert cmp x xs) = insert x (set xs)"
  using mset_sort_insert [of cmp x xs, THEN arg_cong, of set_mset] by simp

lemma sorted_sort_insert:
  fixes f :: "'a \<Rightarrow> int"
  assumes "sorted_wrt (\<lambda>a b. f b \<le> f a) xs"
  shows "sorted_wrt (\<lambda>a b. f b \<le> f a) (sort_insert (\<lambda>a b. f b - f a) x xs)"
  using assms
proof (induction xs)
  case Nil
  then show ?case by simp
next
  case (Cons y ys)
  show ?case
  proof (cases "f y - f x \<le> 0")
    case True
    with Cons.prems show ?thesis by auto
  next
    case False
    with Cons show ?thesis by (auto simp: set_sort_insert)
  qed
qed

lemma sorted_js_sort:
  fixes f :: "'a \<Rightarrow> int"
  shows "sorted_wrt (\<lambda>a b. f b \<le> f a) (js_sort (\<lambda>a b. f b - f a) xs)"
proof (induction xs)
  case Nil
  then show ?case by (simp add: js_sort_def)
next
  case (Cons x xs)
  then show ?case
    using sorted_sort_insert [of f "js_sort (\<lambda>a b. f b - f a) xs" x]
    by (simp add: js_sort_def)
qed


lemma realtime_fields:
  "activeVisitors (formatRealtimeResponse evs t five) =
     card (visitorHash ` {e \<in> set evs. five \<le> timestamp e})"
  "pageViews_r (formatRealtimeResponse evs t five) =
     int (length (filter (\<lambda>e. event e = ''page_view'') evs))"
  "hovers (voice (cardActivity (formatRealtimeResponse evs t five))) =
     on_card ''card_hover_start'' ''voice'' evs"
  "hovers (value_c (cardActivity (formatRealtimeResponse evs t five))) =
     on_card ''card_hover_start'' ''value'' evs"
  "hovers (agent (cardActivity (formatRealtimeResponse evs t five))) =
     on_card ''card_hover_start'' ''agent'' evs"
  "clicks (voice (cardActivity (formatRealtimeResponse evs t five))) =
     on_card ''card_click'' ''voice'' evs"
  "clicks (value_c (cardActivity (formatRealtimeResponse evs t five))) =
     on_card ''card_click'' ''value'' evs"
  "clicks (agent (cardActivity (formatRealtimeResponse evs t five))) =
     on_card ''card_click'' ''agent'' evs"
  by (simp_all add: formatRealtimeResponse_def Let_def foldl_activeSet length_push_all
      foldl_recentPageViews foldl_recentHovers foldl_recentClicks zero_cards_def)

lemma eventStream_format:
  "eventStream (formatRealtimeResponse evs t five) =
     map stream_entry_of (take 20 (js_sort (\<lambda>a b. timestamp b - timestamp a) evs))"
  by (simp add: formatRealtimeResponse_def Let_def)

lemma dropped_by_truncation:
  assumes s: "sorted_wrt (\<lambda>a b. timestamp b \<le> timestamp a) S"
    and e: "e \<in> set S" and n: "e \<notin> set (take k S)"
  shows "length (take k S) = k \<and> (\<forall>x \<in> set (take k S). timestamp e \<le> timestamp x)"
proof -
  have "set S = set (take k S) \<union> set (drop k S)"
    by (metis append_take_drop_id set_append)
  with e n have d: "e \<in> set (drop k S)" by blast
  then have "drop k S \<noteq> []" by auto
  then have l: "length (take k S) = k" by simp
  from s have "sorted_wrt (\<lambda>a b. timestamp b \<le> timestamp a) (take k S @ drop k S)" by simp
  with d have "\<forall>x \<in> set (take k S). timestamp e \<le> timestamp x"
    unfolding sorted_wrt_append by blast
  with l show ?thesis by simp
qed

lemma stream_entry_of_fun:
  "stream_entry_of =
     (\<lambda>e. \<lparr>event_e = event e, card_e = card_id e, timestamp_e = timestamp e,
           country_e = map_option country (client e)\<rparr>)"
  by (rule ext) (simp add: stream_entry_of_def)

lemma realtime_stream:
  "(\<exists>S. mset S = mset evs \<and> sorted_wrt (\<lambda>a b. timestamp b \<le> timestamp a) S
          \<and> eventStream (formatRealtimeResponse evs t five) =
              map stream_entry_of (take 20 S))
   \<and> (\<forall>e \<in> set evs.
         stream_entry_of e \<in> set (eventStream (formatRealtimeResponse evs t five))
         \<or> (length (eventStream (formatRealtimeResponse evs t five)) = 20
            \<and> (\<forall>x \<in> set (eventStream (formatRealtimeResponse evs t five)).
                  timestamp e \<le> timestamp_e x)))"
proof -
  define S where "S = js_sort (\<lambda>a b. timestamp b - timestamp a) evs"
  have m: "mset S = mset evs"
    by (simp add: S_def mset_js_sort)
  have o: "sorted_wrt (\<lambda>a b. timestamp b \<le> timestamp a) S"
    unfolding S_def by (rule sorted_js_sort)
  have st: "eventStream (formatRealtimeResponse evs t five) = map stream_entry_of (take 20 S)"
    by (simp add: eventStream_format S_def)
  have tr: "stream_entry_of e \<in> set (map stream_entry_of (take 20 S))
         \<or> (length (map stream_entry_of (take 20 S)) = 20
            \<and> (\<forall>x \<in> set (map stream_entry_of (take 20 S)). timestamp e \<le> timestamp_e x))"
    if "e \<in> set evs" for e
  proof (cases "e \<in> set (take 20 S)")
    case True
    then show ?thesis by simp
  next
    case False
    from that m have "e \<in> set S" by (metis set_mset_mset)
    from dropped_by_truncation [OF o this False] show ?thesis
      by (auto simp: stream_entry_of_def)
  qed
  from m o st have ex: "\<exists>S. mset S = mset evs \<and> sorted_wrt (\<lambda>a b. timestamp b \<le> timestamp a) S
          \<and> eventStream (formatRealtimeResponse evs t five) =
              map stream_entry_of (take 20 S)"
    by blast
  from tr have al: "\<forall>e \<in> set evs.
         stream_entry_of e \<in> set (eventStream (formatRealtimeResponse evs t five))
         \<or> (length (eventStream (formatRealtimeResponse evs t five)) = 20
            \<and> (\<forall>x \<in> set (eventStream (formatRealtimeResponse evs t five)).
                  timestamp e \<le> timestamp_e x))"
    unfolding st by blast
  from ex al show ?thesis by blast
qed

text \<open>
  Claim C4. In the realtime report \<open>activeVisitors\<close> is the number of distinct visitor
  hashes among the events at or after \<open>fiveMinutesAgo\<close>. Page views and the hovers and
  clicks of each card are counted over all the events passed in, the 30-minute set.
  \<open>eventStream\<close> is the first 20 of a descending-by-timestamp arrangement of all the
  events, each projected to its kind, its card, its timestamp and the country of its
  client. So the projection of an event is missing from the stream only when 20 entries
  at least as recent fill it, whatever the age of the event.
\<close>

theorem realtime_report:
  "activeVisitors (formatRealtimeResponse evs t five) =
     card (visitorHash ` {e \<in> set evs. five \<le> timestamp e})
   \<and> pageViews_r (formatRealtimeResponse evs t five) =
       int (length (filter (\<lambda>e. event e = ''page_view'') evs))
   \<and> hovers (voice (cardActivity (formatRealtimeResponse evs t five))) =
       on_card ''card_hover_start'' ''voice'' evs
   \<and> hovers (value_c (cardActivity (formatRealtimeResponse evs t five))) =
       on_card ''card_hover_start'' ''value'' evs
   \<and> hovers (agent (cardActivity (formatRealtimeResponse evs t five))) =
       on_card ''card_hover_start'' ''agent'' evs
   \<and> clicks (voice (cardActivity (formatRealtimeResponse evs t five))) =
       on_card ''card_click'' ''voice'' evs
   \<and> clicks (value_c (cardActivity (formatRealtimeResponse evs t five))) =
       on_card ''card_click'' ''value'' evs
   \<and> clicks (agent (cardActivity (formatRealtimeResponse evs t five))) =
       on_card ''card_click'' ''agent'' evs
   \<and> (\<exists>S. mset S = mset evs \<and> sorted_wrt (\<lambda>a b. timestamp b \<le> timestamp a) S
          \<and> eventStream (formatRealtimeResponse evs t five) =
              map (\<lambda>e. \<lparr>event_e = event e, card_e = card_id e, timestamp_e = timestamp e,
                         country_e = map_option country (client e)\<rparr>) (take 20 S))
   \<and> (\<forall>e \<in> set evs.
         \<lparr>event_e = event e, card_e = card_id e, timestamp_e = timestamp e,
          country_e = map_option country (client e)\<rparr>
           \<in> set (eventStream (formatRealtimeResponse evs t five))
         \<or> (length (eventStream (formatRealtimeResponse evs t five)) = 20
            \<and> (\<forall>x \<in> set (eventStream (formatRealtimeResponse evs t five)).
                  timestamp e \<le> timestamp_e x)))"
proof -
  note s = realtime_stream [of evs t five, unfolded stream_entry_of_fun]
  show ?thesis
    by (simp only: realtime_fields simp_thms) (insert s, blast)
qed

theorem realtime_report_witness:
  "activeVisitors (formatRealtimeResponse scenario_events 1700000000000 1699999700000) = 2
   \<and> card (visitorHash ` {e \<in> set scenario_events. 1699999700000 \<le> timestamp e}) = 2
   \<and> pageViews_r (formatRealtimeResponse scenario_events 1700000000000 1699999700000) = 2
   \<and> eventStream (formatRealtimeResponse scenario_events 1700000000000 1699999700000) =
       [\<lparr>event_e = ''card_click'', card_e = Some ''agent'', timestamp_e = 1699999990000,
          country_e = Some ''unknown''\<rparr>,
        \<lparr>event_e = ''card_hover_start'', card_e = Some ''voice'', timestamp_e = 1699999970000,
          country_e = Some ''unknown''\<rparr>,
        \<lparr>event_e = ''page_view'', card_e = None, timestamp_e = 1699999940000,
          country_e = Some ''unknown''\<rparr>,
        \<lparr>event_e = ''page_view'', card_e = None, timestamp_e = 1699999400000,
          country_e = Some ''unknown''\<rparr>]
   \<and> \<lparr>event_e = ''page_view'', card_e = None, timestamp_e = 1699999400000,
        country_e = Some ''unknown''\<rparr>
       \<in> set (eventStream (formatRealtimeResponse scenario_events 1700000000000 1699999700000))"
proof -
  have a: "activeVisitors (formatRealtimeResponse scenario_events 1700000000000 1699999700000) = 2"
    by code_simp
  have p: "pageViews_r (formatRealtimeResponse scenario_events 1700000000000 1699999700000) = 2"
    by code_simp
  have l: "eventStream (formatRealtimeResponse scenario_events 1700000000000 1699999700000) =
       [\<lparr>event_e = ''card_click'', card_e = Some ''agent'', timestamp_e = 1699999990000,
          country_e = Some ''unknown''\<rparr>,
        \<lparr>event_e = ''card_hover_start'', card_e = Some ''voice'', timestamp_e = 1699999970000,
          country_e = Some ''unknown''\<rparr>,
        \<lparr>event_e = ''page_view'', card_e = None, timestamp_e = 1699999940000,
          country_e = Some ''unknown''\<rparr>,
        \<lparr>event_e = ''page_view'', card_e = None, timestamp_e = 1699999400000,
          country_e = Some ''unknown''\<rparr>]"
    by code_simp
  have i: "demo_event ''page_view'' ''A'' (1700000000000 - 600000) \<in> set scenario_events"
    by (simp add: scenario_events_def)
  have f: "event (demo_event ''page_view'' ''A'' (1700000000000 - 600000)) = ''page_view''"
    "card_id (demo_event ''page_view'' ''A'' (1700000000000 - 600000)) = None"
    "timestamp (demo_event ''page_view'' ''A'' (1700000000000 - 600000)) = 1699999400000"
    "map_option country (client (demo_event ''page_view'' ''A'' (1700000000000 - 600000)))
       = Some ''unknown''"
    by (simp_all add: demo_event_def)
  note r = realtime_report [of scenario_events 1700000000000 1699999700000]
  from r a have c: "card (visitorHash ` {e \<in> set scenario_events. 1699999700000 \<le> timestamp e}) = 2"
    by simp
  from r have "\<forall>e \<in> set scenario_events.
         \<lparr>event_e = event e, card_e = card_id e, timestamp_e = timestamp e,
          country_e = map_option country (client e)\<rparr>
           \<in> set (eventStream (formatRealtimeResponse scenario_events 1700000000000
                 1699999700000))
         \<or> (length (eventStream (formatRealtimeResponse scenario_events 1700000000000
                 1699999700000)) = 20
            \<and> (\<forall>x \<in> set (eventStream (formatRealtimeResponse scenario_events 1700000000000
                 1699999700000)). timestamp e \<le> timestamp_e x))"
    by blast
  from this [rule_format, OF i] have "\<lparr>event_e = ''page_view'', card_e = None,
        timestamp_e = 1699999400000, country_e = Some ''unknown''\<rparr>
       \<in> set (eventStream (formatRealtimeResponse scenario_events 1700000000000 1699999700000))
     \<or> length (eventStream (formatRealtimeResponse scenario_events 1700000000000
                 1699999700000)) = 20"
    unfolding f by blast
  moreover have "length (eventStream (formatRealtimeResponse scenario_events 1700000000000
                 1699999700000)) \<noteq> 20"
    unfolding l by simp
  ultimately have m: "\<lparr>event_e = ''page_view'', card_e = None,
        timestamp_e = 1699999400000, country_e = Some ''unknown''\<rparr>
       \<in> set (eventStream (formatRealtimeResponse scenario_events 1700000000000 1699999700000))"
    by blast
  from a c p l m show ?thesis by (simp only: simp_thms)
qed

subsection \<open>Referers\<close>

text \<open>
  In \<open>updateProductionStats\<close> and \<open>updateStats\<close> an event of any kind whose referer is
  neither empty nor \<open>direct\<close> adds 1 to the counter of the referer's hostname, and a
  referer on which \<open>new URL\<close> throws changes nothing
  (\<open>fold_event_referer_counted\<close>, \<open>fold_event_referer_malformed\<close>). The fold of the
  local-dev branch has no such statement (\<open>local_fold_referers\<close>).
\<close>

lemma map_of_add_key:
  "map_of (add_key k n kvs) =
     (map_of kvs)(k \<mapsto> (case map_of kvs k of None \<Rightarrow> n | Some c \<Rightarrow> c + n))"
  by (induction kvs) (auto simp: fun_eq_iff)

lemma referers_fold_kind: "referers (fold_kind P ev s) = referers s"
  by (simp add: fold_kind_def Let_def)

lemma referers_fold_country: "referers (fold_country ev s) = referers s"
  by (simp add: fold_country_def split: option.split)

lemma referers_fold_hour: "referers (fold_hour P ev s) = referers s"
  by (simp add: fold_hour_def Let_def)

lemma referers_fold_referer:
  "referers (fold_referer P ev s) =
     (case client ev of
        None \<Rightarrow> referers s
      | Some c \<Rightarrow>
          if referer c \<noteq> [] \<and> referer c \<noteq> ''direct''
          then (case url_hostname P (referer c) of
                  None \<Rightarrow> referers s
                | Some refHost \<Rightarrow> add_key refHost 1 (referers s))
          else referers s)"
  by (simp add: fold_referer_def split: option.split)

lemma fold_event_referers:
  "referers (fold_event P t ev s) = referers (fold_referer P ev s)"
  by (simp add: fold_event_def referers_fold_hour referers_fold_referer referers_fold_country
      referers_fold_kind split: option.split)

lemma fold_event_referer_counted:
  assumes "client ev = Some c" and "referer c \<noteq> []" and "referer c \<noteq> ''direct''"
    and "url_hostname P (referer c) = Some h"
  shows "map_of (referers (fold_event P t ev s)) =
           (map_of (referers s))(h \<mapsto> (case map_of (referers s) h of
                                            None \<Rightarrow> 1 | Some n \<Rightarrow> n + 1))"
  using assms by (simp add: fold_event_referers referers_fold_referer map_of_add_key)

lemma fold_event_referer_malformed:
  assumes "client ev = Some c" and "url_hostname P (referer c) = None"
  shows "referers (fold_event P t ev s) = referers s"
  using assms by (simp add: fold_event_referers referers_fold_referer)

lemma local_fold_referers: "referers (local_fold P ev s) = referers s"
  by (simp add: local_fold_def referers_fold_hour referers_fold_country referers_fold_kind)

lemma referers_json_stats: "referers (json_stats s) = referers s"
  by (simp add: json_stats_def)

lemma client_handler_event:
  "client (handler_event E req b) =
     Some \<lparr>country =
             (if truthy_str (x_country (headers req))
                 \<or> truthy_str (x_nf_client_connection_ip (headers req))
              then ''detected'' else ''unknown''),
           referer = js_or (referer_h (headers req)) ''direct''\<rparr>"
  by (simp add: handler_event_def build_event_def Let_def)

lemma handler_local_stats:
  assumes "httpMethod req = ''POST''" and "body_in req = Body b"
    and "eventType b \<in> JStr ` set VALID_EVENTS" and "\<not> production E"
  shows "stats (localStore (snd (handler P E req w))) (today E) =
           Some (local_fold P (handler_event E req b)
                   (case stats (localStore w) (today E) of
                      None \<Rightarrow> zero_dated (today E)
                    | Some s \<Rightarrow> s))"
proof -
  from assms(3) have v: "truthy (eventType b)" "includes_str VALID_EVENTS (eventType b)"
    using valid_event_iff [of "eventType b"] by blast+
  show ?thesis
    using assms(1,2,4) v
    by (simp add: handler_def Let_def ingest_local_def split_def)
qed

lemma handler_production_stats:
  assumes "httpMethod req = ''POST''" and "body_in req = Body b"
    and "eventType b \<in> JStr ` set VALID_EVENTS" and "production E"
  shows "stats_blobs (blobs (snd (handler P E req w))) (stats_key (today E)) =
           Some (json_stats (fold_event P (now E) (handler_event E req b)
                   (case stats_blobs (blobs w) (stats_key (today E)) of
                      None \<Rightarrow> zero_daily (today E) (now E)
                    | Some s \<Rightarrow> s)))"
proof -
  from assms(3) have v: "truthy (eventType b)" "includes_str VALID_EVENTS (eventType b)"
    using valid_event_iff [of "eventType b"] by blast+
  show ?thesis
    using assms(1,2,4) v
    by (simp add: handler_def Let_def updateProductionStats_stored)
qed


text \<open>
  Claim C2. The claim holds for the two production folds and fails for the fold of the
  local-dev branch, whose aggregate has a \<open>referers\<close> object that is never written: the
  same \<open>page_view\<close> with the referer \<open>https://example.com/x\<close> leaves \<open>referers\<close>
  empty in local-dev mode and counts \<open>example.com\<close> once in production mode.
\<close>

theorem local_fold_misses_referer:
  "map_option referers
     (stats (localStore (snd (handler demo_platform (demo_env False) referred_view empty_world)))
        ''2023-11-14'') = Some []
   \<and> map_option referers
       (stats_blobs (blobs (snd (handler demo_platform (demo_env True) referred_view
          empty_world))) (stats_key ''2023-11-14'')) = Some [(''example.com'', 1)]"
proof -
  define b where "b = \<lparr>eventType = JStr ''page_view'', page_in = None,
       card_in = None, data_in = None, sessionId_in = None, timestamp_in = None\<rparr>"
  have r: "httpMethod referred_view = ''POST''" "body_in referred_view = Body b"
    by (simp_all add: referred_view_def post_event_def b_def)
  have h: "referer_h (headers referred_view) = Some ''https://example.com/x''"
    by (simp add: referred_view_def post_event_def no_headers_def)
  have k: "eventType b \<in> JStr ` set VALID_EVENTS"
    by (simp add: VALID_EVENTS_def b_def)
  have z: "referers (zero_dated d) = []" "referers (zero_daily d t) = []" for d t
    by (simp_all add: zero_dated_def zero_daily_def zero_totals_def totals.defs)
  have e: "today (demo_env live) = ''2023-11-14''" "production (demo_env live) = live"
    for live
    by (simp_all add: demo_env_def)
  have w: "stats (localStore empty_world) ''2023-11-14'' = None"
    "stats_blobs (blobs empty_world) (stats_key ''2023-11-14'') = None"
    by (simp_all add: empty_world_def)
  have u: "url_hostname demo_platform ''https://example.com/x'' = Some ''example.com''"
    by (simp add: demo_platform_def)
  have c: "client (handler_event E referred_view b) =
      Some \<lparr>country = ''unknown'', referer = ''https://example.com/x''\<rparr>" for E
    by (simp add: client_handler_event h js_or_def)
      (simp add: referred_view_def post_event_def no_headers_def)
  have "production (demo_env False) = False" by (simp add: e)
  then have np: "\<not> production (demo_env False)" by simp
  have p: "production (demo_env True)" by (simp add: e)
  have a: "map_option referers
     (stats (localStore (snd (handler demo_platform (demo_env False) referred_view empty_world)))
        ''2023-11-14'') = Some []"
    using handler_local_stats [OF r k np, of demo_platform empty_world]
    by (simp add: e w z local_fold_referers)
  have b: "map_option referers
       (stats_blobs (blobs (snd (handler demo_platform (demo_env True) referred_view
          empty_world))) (stats_key ''2023-11-14'')) = Some [(''example.com'', 1)]"
    using handler_production_stats [OF r k p, of demo_platform empty_world]
    by (simp add: e w z referers_json_stats fold_event_referers referers_fold_referer c u)
  from a b show ?thesis by simp
qed

theorem local_fold_misses_referer_witness:
  "map_option referers
     (stats (localStore (snd (handler demo_platform (demo_env False) referred_view empty_world)))
        ''2023-11-14'')
   \<noteq> map_option referers
       (stats_blobs (blobs (snd (handler demo_platform (demo_env True) referred_view
          empty_world))) (stats_key ''2023-11-14''))"
proof -
  from local_fold_misses_referer
  have "map_option referers
     (stats (localStore (snd (handler demo_platform (demo_env False) referred_view empty_world)))
        ''2023-11-14'') = Some []"
    and "map_option referers
       (stats_blobs (blobs (snd (handler demo_platform (demo_env True) referred_view
          empty_world))) (stats_key ''2023-11-14'')) = Some [(''example.com'', 1)]"
    by blast+
  then show ?thesis by (simp only:) simp
qed

subsection \<open>The range of the summary\<close>

lemma range_days_other: "r \<noteq> ''1d'' \<Longrightarrow> r \<noteq> ''7d'' \<Longrightarrow> range_days r = 30"
  by (simp add: range_days_def)

lemma foldl_summary_pageViews:
  "pageViews (fst (foldl (summary_step P store) acc ds)) =
     pageViews (fst acc)
       + sum_list (map pageViews (List.map_filter (\<lambda>d. stats_blobs store (stats_key d)) ds))"
  by (induction ds arbitrary: acc)
    (simp_all add: summary_step_def List.map_filter_simps merge_day_def split: option.split)

lemma map_filter_map: "List.map_filter f (map g xs) = List.map_filter (\<lambda>x. f (g x)) xs"
  by (induction xs) (simp_all add: List.map_filter_simps split: option.split)

lemma format_fields:
  "pageViews_o (overview (formatSummaryResponse P t tot ds r)) = pageViews tot"
  "map date_d (dailyStats (formatSummaryResponse P t tot ds r)) = map date ds"
  "range_s (formatSummaryResponse P t tot ds r) = r"
  by (simp_all add: formatSummaryResponse_def Let_def comp_def)

lemma getLocalSummary_thirty:
  assumes "r \<noteq> ''1d''" and "r \<noteq> ''7d''"
  shows "getLocalSummary P dateOf t store r =
           (formatSummaryResponse P t (fst (local_merge P store (map dateOf [0..<30])))
              (snd (local_merge P store (map dateOf [0..<30]))) r)\<lparr>mode_s := ''local''\<rparr>"
  using assms by (simp add: getLocalSummary_def Let_def range_days_def)

text \<open>
  Claim C10. A range other than \<open>1d\<close> and \<open>7d\<close> (\<open>30d\<close>, \<open>90d\<close>, any other text) is not
  rejected: \<open>getSummaryStats\<close> answers with the formatter's response on the merge of the
  30 dates \<open>dateOf 0\<close>, ..., \<open>dateOf 29\<close>. Its \<open>dailyStats\<close> are the days stored under
  these 30 dates, in this order, its \<open>pageViews\<close> is the sum of theirs, and the response
  echoes the range as it was given. The handler passes every non-empty parameter on as it
  is. \<open>getLocalSummary\<close> merges the same 30 dates of the in-memory store.
\<close>

theorem other_range_is_thirty_days:
  assumes "r \<noteq> ''1d''" and "r \<noteq> ''7d''"
  shows "getSummaryStats P dateOf t store r =
           formatSummaryResponse P t (fst (merge_dates P store (map dateOf [0..<30])))
             (snd (merge_dates P store (map dateOf [0..<30]))) r
         \<and> map date_d (dailyStats (getSummaryStats P dateOf t store r)) =
             map date (List.map_filter (\<lambda>i. stats_blobs store (stats_key (dateOf i))) [0..<30])
         \<and> pageViews_o (overview (getSummaryStats P dateOf t store r)) =
             sum_list (map pageViews
               (List.map_filter (\<lambda>i. stats_blobs store (stats_key (dateOf i))) [0..<30]))
         \<and> range_s (getSummaryStats P dateOf t store r) = r
         \<and> range_days r = 30
         \<and> (r \<noteq> [] \<longrightarrow> range_param (Some r) = r)
         \<and> getLocalSummary P dateOf t local r =
             (formatSummaryResponse P t (fst (local_merge P local (map dateOf [0..<30])))
                (snd (local_merge P local (map dateOf [0..<30]))) r)\<lparr>mode_s := ''local''\<rparr>"
proof -
  have d: "range_days r = 30"
    using assms by (rule range_days_other)
  have g: "getSummaryStats P dateOf t store r =
           formatSummaryResponse P t (fst (merge_dates P store (map dateOf [0..<30])))
             (snd (merge_dates P store (map dateOf [0..<30]))) r"
    by (simp add: getSummaryStats_def Let_def d)
  have days: "snd (merge_dates P store (map dateOf [0..<30])) =
      List.map_filter (\<lambda>i. stats_blobs store (stats_key (dateOf i))) [0..<30]"
    by (simp add: merge_dates_def foldl_summary_days map_filter_map)
  have views: "pageViews (fst (merge_dates P store (map dateOf [0..<30]))) =
      sum_list (map pageViews
        (List.map_filter (\<lambda>i. stats_blobs store (stats_key (dateOf i))) [0..<30]))"
    by (simp add: merge_dates_def foldl_summary_pageViews map_filter_map zero_totals_def)
  have l: "getLocalSummary P dateOf t local r =
             (formatSummaryResponse P t (fst (local_merge P local (map dateOf [0..<30])))
                (snd (local_merge P local (map dateOf [0..<30]))) r)\<lparr>mode_s := ''local''\<rparr>"
    using assms by (rule getLocalSummary_thirty)
  have m: "getSummaryStats P dateOf t store r =
           formatSummaryResponse P t (fst (merge_dates P store (map dateOf [0..<30])))
             (snd (merge_dates P store (map dateOf [0..<30]))) r
         \<and> map date_d (dailyStats (getSummaryStats P dateOf t store r)) =
             map date (List.map_filter (\<lambda>i. stats_blobs store (stats_key (dateOf i))) [0..<30])
         \<and> pageViews_o (overview (getSummaryStats P dateOf t store r)) =
             sum_list (map pageViews
               (List.map_filter (\<lambda>i. stats_blobs store (stats_key (dateOf i))) [0..<30]))
         \<and> range_s (getSummaryStats P dateOf t store r) = r
         \<and> range_days r = 30
         \<and> (r \<noteq> [] \<longrightarrow> range_param (Some r) = r)"
    unfolding g by (simp add: format_fields days views d range_param_def js_or_def)
  show ?thesis
    by (intro conjI m [THEN conjunct1] m [THEN conjunct2, THEN conjunct1]
        m [THEN conjunct2, THEN conjunct2, THEN conjunct1]
        m [THEN conjunct2, THEN conjunct2, THEN conjunct2, THEN conjunct1]
        m [THEN conjunct2, THEN conjunct2, THEN conjunct2, THEN conjunct2, THEN conjunct1]
        m [THEN conjunct2, THEN conjunct2, THEN conjunct2, THEN conjunct2, THEN conjunct2] l)
qed

theorem other_range_is_thirty_days_witness:
  "''90d'' \<noteq> ''1d'' \<and> ''90d'' \<noteq> ''7d''
   \<and> map date_d (dailyStats (getSummaryStats demo_platform month_dates 0 month_old ''90d''))
       = [''2023-10-16'']
   \<and> pageViews_o (overview (getSummaryStats demo_platform month_dates 0 month_old ''90d'')) = 1
   \<and> pageViews_o (overview (getSummaryStats demo_platform month_dates 0 month_old ''garbage''))
       = 1
   \<and> pageViews_o (overview (getSummaryStats demo_platform month_dates 0 month_old ''7d'')) = 0
   \<and> range_param (Some ''90d'') = ''90d''"
proof -
  have f: "List.map_filter (\<lambda>i. stats_blobs month_old (stats_key (month_dates i))) [0..<30]
      = [day_with ''2023-10-16'' [''a'']]"
    by code_simp
  have v: "pageViews (day_with ''2023-10-16'' [''a'']) = 1"
    "date (day_with ''2023-10-16'' [''a'']) = ''2023-10-16''"
    by (simp_all add: day_with_def zero_daily_def totals.defs)
  have s: "pageViews_o (overview (getSummaryStats demo_platform month_dates 0 month_old ''7d''))
      = 0"
    by code_simp
  have n: "''90d'' \<noteq> ''1d''" "''90d'' \<noteq> ''7d''" "''garbage'' \<noteq> ''1d''" "''garbage'' \<noteq> ''7d''"
    by simp_all
  note a = other_range_is_thirty_days [OF n(1,2), of demo_platform month_dates 0 month_old]
  note b = other_range_is_thirty_days [OF n(3,4), of demo_platform month_dates 0 month_old]
  have a1: "map date_d (dailyStats (getSummaryStats demo_platform month_dates 0 month_old
      ''90d'')) = [''2023-10-16'']"
    using a [THEN conjunct2, THEN conjunct1] unfolding f by (simp add: v)
  have a2: "pageViews_o (overview (getSummaryStats demo_platform month_dates 0 month_old
      ''90d'')) = 1"
    using a [THEN conjunct2, THEN conjunct2, THEN conjunct1] unfolding f by (simp add: v)
  have b2: "pageViews_o (overview (getSummaryStats demo_platform month_dates 0 month_old
      ''garbage'')) = 1"
    using b [THEN conjunct2, THEN conjunct2, THEN conjunct1] unfolding f by (simp add: v)
  have a3: "range_param (Some ''90d'') = ''90d''"
    using a [THEN conjunct2, THEN conjunct2, THEN conjunct2, THEN conjunct2, THEN conjunct2,
        THEN conjunct1]
    by simp
  from n a1 a2 b2 a3 s show ?thesis by simp
qed

subsection \<open>Session durations\<close>

lemma fold_kind_session_end:
  "event ev = ''session_end'' \<Longrightarrow>
   totalSessionDuration (fold_kind P ev s) =
     (if truthy (duration (data ev))
      then js_plus P (totalSessionDuration s) (duration (data ev))
      else totalSessionDuration s)"
  by (simp add: fold_kind_def)

lemma js_plus_numbers: "js_plus P (JNum a) (JNum d) = JNum (js_add a d)"
  by (simp add: js_plus_def to_number_def)

lemma js_plus_integers:
  assumes "\<bar>i + j\<bar> < 2 ^ 53"
  shows "js_plus P (JNum (Fin (of_int i))) (JNum (Fin (of_int j))) = JNum (Fin (of_int (i + j)))"
  using r64_int [OF assms] by (simp add: js_plus_numbers)

lemma js_plus_text: "js_plus P x (JStr w) = JStr (to_string P x @ w)"
  by (simp add: js_plus_def)

lemma session_end_total:
  assumes "T = (if truthy v then js_plus P T0 v else T0)"
  shows "(\<not> truthy v \<longrightarrow> T = T0)
         \<and> (\<forall>a d. v = JNum d \<and> truthy v \<and> T0 = JNum a \<longrightarrow> T = JNum (js_add a d))
         \<and> (\<forall>i j. v = JNum (Fin (of_int j)) \<and> T0 = JNum (Fin (of_int i)) \<and> \<bar>i + j\<bar> < 2 ^ 53
               \<longrightarrow> T = JNum (Fin (of_int (i + j))))
         \<and> (\<forall>w. v = JStr w \<and> w \<noteq> [] \<longrightarrow> T = JStr (to_string P T0 @ w))"
proof -
  have "T = JNum (Fin (of_int (i + j)))"
    if "v = JNum (Fin (of_int j))" "T0 = JNum (Fin (of_int i))" "\<bar>i + j\<bar> < 2 ^ 53" for i j
  proof (cases "j = 0")
    case True
    with that assms show ?thesis by simp
  next
    case False
    with that assms js_plus_integers [OF that(3), of P] show ?thesis by simp
  qed
  with assms show ?thesis
    by (auto simp: js_plus_numbers js_plus_text)
qed

text \<open>
  Claim C3 does not hold for every duration that a client can send. The sum is a binary64
  sum: a total of \<open>2^53\<close> and a duration of 1 give \<open>2^53\<close> again. And a duration that is
  a string is concatenated: \<open>0 + "1500"\<close> is the string \<open>"01500"\<close>.
\<close>

theorem session_duration_counterexample:
  "event (session_end_with (JNum (Fin 1))) = ''session_end''
   \<and> totalSessionDuration
       (fold_event demo_platform 9 (session_end_with (JNum (Fin 1)))
          (fold_event demo_platform 8 (session_end_with (JNum (Fin 9007199254740992)))
             (zero_daily ''2023-11-14'' 0))) = JNum (Fin 9007199254740992)
   \<and> totalSessionDuration
       (fold_event demo_platform 9 (session_end_with (JStr ''1500''))
          (zero_daily ''2023-11-14'' 0)) = JStr ''01500''"
proof -
  have e: "event (session_end_with d) = ''session_end''"
    "duration (data (session_end_with d)) = d" for d
    by (simp_all add: session_end_with_def demo_event_def)
  have z: "totalSessionDuration (zero_daily ''2023-11-14'' 0) = JNum (Fin 0)"
    by (simp add: zero_daily_def zero_totals_def totals.defs)
  have r: "r64 9007199254740992 = Fin 9007199254740992"
    "r64 9007199254740993 = Fin 9007199254740992"
    by (simp_all add: r64_eval)
  have s: "number_to_string demo_platform (Fin 0) = ''0''"
    by code_simp
  show ?thesis
    by (simp add: fold_event_totalSessionDuration fold_kind_session_end e z js_plus_numbers
        js_plus_text r s)
qed

text \<open>
  Claim C3, amended. On a \<open>session_end\<close> event both folds leave \<open>totalSessionDuration\<close>
  unchanged when \<open>data.duration\<close> is absent or falsy (\<open>0\<close>, \<open>null\<close>, the empty string).
  A truthy number is added to a numeric total in binary64; the result is the exact sum
  when both are integers and the sum is below \<open>2^53\<close> in absolute value. A non-empty
  string is appended to the text of the total.
\<close>

theorem session_end_adds_duration:
  assumes "event ev = ''session_end''"
  shows "(\<not> truthy (duration (data ev)) \<longrightarrow>
            totalSessionDuration (fold_event P t ev s) = totalSessionDuration s)
         \<and> (\<forall>a d. duration (data ev) = JNum d \<and> truthy (duration (data ev))
                 \<and> totalSessionDuration s = JNum a \<longrightarrow>
               totalSessionDuration (fold_event P t ev s) = JNum (js_add a d))
         \<and> (\<forall>i j. duration (data ev) = JNum (Fin (of_int j))
                 \<and> totalSessionDuration s = JNum (Fin (of_int i)) \<and> \<bar>i + j\<bar> < 2 ^ 53 \<longrightarrow>
               totalSessionDuration (fold_event P t ev s) = JNum (Fin (of_int (i + j))))
         \<and> (\<forall>w. duration (data ev) = JStr w \<and> w \<noteq> [] \<longrightarrow>
               totalSessionDuration (fold_event P t ev s)
                 = JStr (to_string P (totalSessionDuration s) @ w))
         \<and> (\<not> truthy (duration (data ev)) \<longrightarrow>
               totalSessionDuration (local_fold P ev l) = totalSessionDuration l)
         \<and> (\<forall>a d. duration (data ev) = JNum d \<and> truthy (duration (data ev))
                 \<and> totalSessionDuration l = JNum a \<longrightarrow>
               totalSessionDuration (local_fold P ev l) = JNum (js_add a d))
         \<and> (\<forall>i j. duration (data ev) = JNum (Fin (of_int j))
                 \<and> totalSessionDuration l = JNum (Fin (of_int i)) \<and> \<bar>i + j\<bar> < 2 ^ 53 \<longrightarrow>
               totalSessionDuration (local_fold P ev l) = JNum (Fin (of_int (i + j))))
         \<and> (\<forall>w. duration (data ev) = JStr w \<and> w \<noteq> [] \<longrightarrow>
               totalSessionDuration (local_fold P ev l)
                 = JStr (to_string P (totalSessionDuration l) @ w))"
proof -
  have a: "totalSessionDuration (fold_event P t ev s) =
      (if truthy (duration (data ev))
       then js_plus P (totalSessionDuration s) (duration (data ev))
       else totalSessionDuration s)"
    using assms by (simp add: fold_event_totalSessionDuration fold_kind_session_end)
  have b: "totalSessionDuration (local_fold P ev l) =
      (if truthy (duration (data ev))
       then js_plus P (totalSessionDuration l) (duration (data ev))
       else totalSessionDuration l)"
    using assms by (simp add: local_fold_totalSessionDuration fold_kind_session_end)
  note A = session_end_total [OF a]
  note B = session_end_total [OF b]
  show ?thesis
    by (intro conjI A [THEN conjunct1] A [THEN conjunct2, THEN conjunct1]
        A [THEN conjunct2, THEN conjunct2, THEN conjunct1]
        A [THEN conjunct2, THEN conjunct2, THEN conjunct2]
        B [THEN conjunct1] B [THEN conjunct2, THEN conjunct1]
        B [THEN conjunct2, THEN conjunct2, THEN conjunct1]
        B [THEN conjunct2, THEN conjunct2, THEN conjunct2])
qed

theorem session_end_adds_duration_witness:
  "event (session_end_with (JNum (Fin 1500))) = ''session_end''
   \<and> totalSessionDuration
       (fold_event demo_platform 9 (session_end_with (JNum (Fin 1500)))
          (zero_daily ''2023-11-14'' 0)) = JNum (Fin 1500)
   \<and> totalSessionDuration
       (fold_event demo_platform 9 (session_end_with JUndefined)
          (zero_daily ''2023-11-14'' 0)) = JNum (Fin 0)"
proof -
  have e: "event (session_end_with d) = ''session_end''"
    "duration (data (session_end_with d)) = d" for d
    by (simp_all add: session_end_with_def demo_event_def)
  have z: "totalSessionDuration (zero_daily ''2023-11-14'' 0) = JNum (Fin (of_int 0))"
    by (simp add: zero_daily_def zero_totals_def totals.defs)
  have n: "JNum (Fin 1500) = JNum (Fin (of_int 1500))" by simp
  note w = session_end_adds_duration [OF e(1), of "JNum (Fin 1500)" demo_platform 9
      "zero_daily ''2023-11-14'' 0"]
  note u = session_end_adds_duration [OF e(1), of JUndefined demo_platform 9
      "zero_daily ''2023-11-14'' 0"]
  have "\<bar>0 + 1500\<bar> < (2::int) ^ 53" by simp
  with w [THEN conjunct2, THEN conjunct2, THEN conjunct1, rule_format, of 1500 0] e z
  have a: "totalSessionDuration
       (fold_event demo_platform 9 (session_end_with (JNum (Fin 1500)))
          (zero_daily ''2023-11-14'' 0)) = JNum (Fin 1500)"
    by simp
  from u [THEN conjunct1] e z
  have b: "totalSessionDuration
       (fold_event demo_platform 9 (session_end_with JUndefined)
          (zero_daily ''2023-11-14'' 0)) = JNum (Fin 0)"
    by simp
  from e a b show ?thesis by simp
qed

subsection \<open>The bounce rate\<close>

lemma bounceRate_format:
  "bounceRate (overview (formatSummaryResponse P t tot ds r)) =
     (if sessions tot > 0 \<and> pageViews tot > 0
      then math_round
             (js_mul (js_sub (Fin 1) (js_div (num (totalClicks_of tot)) (num (pageViews tot))))
                (Fin 100))
      else Fin 0)"
  by (simp add: formatSummaryResponse_def Let_def totalClicks_of_def)







subsection \<open>Rates and their denominators\<close>

lemma cardEngagement_format:
  "cardEngagement (formatSummaryResponse P t tot ds r) =
     \<lparr>voice = engagement_of P (voice (cardHovers tot)) (voice (cardClicks tot))
                (voice (cardHoverTime tot)) (totalHovers_of tot),
      value_c = engagement_of P (value_c (cardHovers tot)) (value_c (cardClicks tot))
                  (value_c (cardHoverTime tot)) (totalHovers_of tot),
      agent = engagement_of P (agent (cardHovers tot)) (agent (cardClicks tot))
                (agent (cardHoverTime tot)) (totalHovers_of tot)\<rparr>"
  by (simp add: formatSummaryResponse_def Let_def totalHovers_of_def)

lemma engagement_of_fields:
  "hovers (engagement_of P h c ht th) = h"
  "clicks (engagement_of P h c ht th) = c"
  "avgHoverTime (engagement_of P h c ht th) =
     (if h > 0 then math_round (js_div (to_number P ht) (num h)) else Fin 0)"
  "clickRate (engagement_of P h c ht th) =
     (if h > 0 then math_round (js_mul (js_div (num c) (num h)) (Fin 100)) else Fin 0)"
  "share (engagement_of P h c ht th) =
     (if th > 0 then math_round (js_mul (js_div (num h) (num th)) (Fin 100)) else Fin 0)"
  by (simp_all add: engagement_of_def)

lemma getSummaryStats_merge:
  "getSummaryStats P dateOf t store r =
     formatSummaryResponse P t (fst (merge_dates P store (map dateOf [0..<range_days r])))
       (snd (merge_dates P store (map dateOf [0..<range_days r]))) r"
  by (simp add: getSummaryStats_def Let_def)

lemma getLocalSummary_merge:
  "cardEngagement (getLocalSummary P dateOf t store r) =
     cardEngagement
       (formatSummaryResponse P t (fst (local_merge P store (map dateOf [0..<range_days r])))
          (snd (local_merge P store (map dateOf [0..<range_days r]))) r)"
  by (simp add: getLocalSummary_def local_merge_def Let_def)

lemma abs_div_int_le:
  assumes "b \<noteq> 0"
  shows "\<bar>x / rat_of_int b\<bar> \<le> \<bar>x\<bar>"
proof -
  from assms have "1 \<le> \<bar>b\<bar>" by simp
  then have "rat_of_int 1 \<le> rat_of_int \<bar>b\<bar>" by (simp only: of_int_le_iff)
  then have one: "1 \<le> \<bar>rat_of_int b\<bar>" by simp
  have "\<bar>x\<bar> / \<bar>rat_of_int b\<bar> \<le> \<bar>x\<bar> / 1"
    using one by (intro divide_left_mono) auto
  then show ?thesis by (simp add: abs_divide)
qed

lemma math_round_NaN: "(math_round x = NaN) = (x = NaN)"
  by (cases x) simp_all

lemma math_round_Fin: "is_Fin (math_round x) = is_Fin x"
  by (cases x) simp_all

lemma times_100_not_NaN: "x \<noteq> NaN \<Longrightarrow> js_mul x (Fin 100) \<noteq> NaN"
  by (cases x) (simp_all add: r64_not_NaN)

lemma ratio_not_NaN:
  assumes "b \<noteq> 0"
  shows "math_round (js_mul (js_div (num a) (num b)) (Fin 100)) \<noteq> NaN"
proof -
  have "js_div (num a) (num b) \<noteq> NaN" using assms by (simp add: num_def r64_not_NaN)
  then show ?thesis by (simp add: math_round_NaN times_100_not_NaN)
qed

lemma one_minus_not_NaN: "x \<noteq> NaN \<Longrightarrow> js_sub (Fin 1) x \<noteq> NaN"
  by (cases x) (simp_all add: js_sub_def r64_not_NaN)

lemma bounce_not_NaN:
  assumes "b \<noteq> 0"
  shows "math_round (js_mul (js_sub (Fin 1) (js_div (num a) (num b))) (Fin 100)) \<noteq> NaN"
proof -
  have "js_div (num a) (num b) \<noteq> NaN" using assms by (simp add: num_def r64_not_NaN)
  then show ?thesis by (simp add: math_round_NaN times_100_not_NaN one_minus_not_NaN)
qed

lemma max_double_larger: "2 ^ 64 \<le> max_double"
  by (simp add: max_double_def)

lemma quotient_bounded:
  assumes "\<bar>a\<bar> < 2 ^ 53" and "b \<noteq> 0"
  shows "\<exists>y. js_div (num a) (num b) = Fin y \<and> \<bar>y\<bar> \<le> 2 ^ 54"
proof -
  have "rat_of_int \<bar>a\<bar> < rat_of_int (2 ^ 53)" using assms(1) by (simp only: of_int_less_iff)
  then have "\<bar>rat_of_int a\<bar> \<le> 2 ^ 53" by simp
  with abs_div_int_le [OF assms(2), of "rat_of_int a"]
  have q: "\<bar>rat_of_int a / rat_of_int b\<bar> \<le> 2 ^ 53" by simp
  have "(2::rat) ^ 53 \<le> max_double" using max_double_larger by simp
  from r64_bounded [OF q this] assms(2) show ?thesis by (simp add: num_def)
qed

lemma ratio_finite:
  assumes "\<bar>a\<bar> < 2 ^ 53" and "b \<noteq> 0"
  shows "is_Fin (math_round (js_mul (js_div (num a) (num b)) (Fin 100)))"
proof -
  from quotient_bounded [OF assms] obtain y where
    y: "js_div (num a) (num b) = Fin y" "\<bar>y\<bar> \<le> 2 ^ 54" by blast
  have "\<bar>y * 100\<bar> \<le> 2 ^ 64" using y(2) by (simp add: abs_mult)
  from r64_bounded [OF this max_double_larger] obtain w where "r64 (y * 100) = Fin w" by blast
  then show ?thesis by (simp add: y(1))
qed

lemma bounce_finite:
  assumes "\<bar>a\<bar> < 2 ^ 53" and "b \<noteq> 0"
  shows "is_Fin (math_round (js_mul (js_sub (Fin 1) (js_div (num a) (num b))) (Fin 100)))"
proof -
  from quotient_bounded [OF assms] obtain y where
    y: "js_div (num a) (num b) = Fin y" "\<bar>y\<bar> \<le> 2 ^ 54" by blast
  have "\<bar>1 - y\<bar> \<le> 2 ^ 55" using y(2) by simp
  moreover have "(2::rat) ^ 55 \<le> max_double" using max_double_larger by simp
  ultimately obtain z where z: "r64 (1 - y) = Fin z" "\<bar>z\<bar> \<le> 2 * 2 ^ 55"
    using r64_bounded [of "1 - y" "2 ^ 55"] by blast
  have "\<bar>z * 100\<bar> \<le> 2 ^ 64" using z(2) by (simp add: abs_mult)
  from r64_bounded [OF this max_double_larger] obtain w where "r64 (z * 100) = Fin w" by blast
  then show ?thesis by (simp add: y(1) js_sub_def z(1))
qed

lemma average_NaN:
  assumes "h \<noteq> 0"
  shows "(math_round (js_div x (num h)) = NaN) = (x = NaN)"
  using assms by (cases x) (simp_all add: num_def r64_not_NaN math_round_NaN)

lemma average_finite:
  assumes "h \<noteq> 0" and "\<bar>x\<bar> \<le> max_double"
  shows "is_Fin (math_round (js_div (Fin x) (num h)))"
proof -
  from abs_div_int_le [OF assms(1), of x] assms(2)
  have "\<bar>x / rat_of_int h\<bar> \<le> max_double" by simp
  from r64_bounded [OF this] obtain y where "r64 (x / rat_of_int h) = Fin y" by auto
  with assms(1) show ?thesis by (simp add: num_def)
qed


lemma engagement_rates:
  "(h \<le> 0 \<longrightarrow> avgHoverTime (engagement_of P h c ht th) = Fin 0
        \<and> clickRate (engagement_of P h c ht th) = Fin 0)
   \<and> (th \<le> 0 \<longrightarrow> share (engagement_of P h c ht th) = Fin 0)
   \<and> clickRate (engagement_of P h c ht th) \<noteq> NaN
   \<and> share (engagement_of P h c ht th) \<noteq> NaN
   \<and> (\<bar>c\<bar> < 2 ^ 53 \<longrightarrow> is_Fin (clickRate (engagement_of P h c ht th)))
   \<and> (\<bar>h\<bar> < 2 ^ 53 \<longrightarrow> is_Fin (share (engagement_of P h c ht th)))
   \<and> (0 < h \<longrightarrow>
         (avgHoverTime (engagement_of P h c ht th) = NaN) = (to_number P ht = NaN))
   \<and> (\<forall>x. to_number P ht = Fin x \<and> \<bar>x\<bar> \<le> max_double \<longrightarrow>
         is_Fin (avgHoverTime (engagement_of P h c ht th)))"
  by (auto simp: engagement_of_fields ratio_not_NaN ratio_finite average_NaN average_finite)

text \<open>
  Claim C7 fails for \<open>avgHoverTime\<close>: its numerator is a sum of durations that clients
  send. After a hover that ended with the duration \<open>"abc"\<close> the stored hover time is the
  string \<open>"0abc"\<close>, the merged one \<open>"00abc"\<close>, and its quotient by one hover is \<open>NaN\<close>.
  In the in-memory store two days with the hover times \<open>Infinity\<close> and \<open>-Infinity\<close> merge
  to \<open>NaN\<close> as well.
\<close>

theorem avg_hover_time_nan_counterexample:
  "hovers (voice (cardEngagement
      (getSummaryStats demo_platform demo_dates 0 text_duration_store ''7d''))) = 1
   \<and> voice (cardHoverTime
        (fst (merge_dates demo_platform text_duration_store
                (map demo_dates [0..<range_days ''7d''])))) = JStr ''00abc''
   \<and> avgHoverTime (voice (cardEngagement
      (getSummaryStats demo_platform demo_dates 0 text_duration_store ''7d''))) = NaN
   \<and> hovers (voice (cardEngagement
      (getLocalSummary demo_platform demo_dates 0 infinite_days ''7d''))) = 1
   \<and> avgHoverTime (voice (cardEngagement
      (getLocalSummary demo_platform demo_dates 0 infinite_days ''7d''))) = NaN"
proof -
  have p: "voice (cardHovers (fst (merge_dates demo_platform text_duration_store
                (map demo_dates [0..<range_days ''7d''])))) = 1"
    "voice (cardHoverTime (fst (merge_dates demo_platform text_duration_store
                (map demo_dates [0..<range_days ''7d''])))) = JStr ''00abc''"
    by code_simp+
  have l: "voice (cardHovers (fst (local_merge demo_platform infinite_days
                (map demo_dates [0..<range_days ''7d''])))) = 1"
    "voice (cardHoverTime (fst (local_merge demo_platform infinite_days
                (map demo_dates [0..<range_days ''7d''])))) = JNum NaN"
    by code_simp+
  have n: "to_number demo_platform (JStr ''00abc'') = NaN"
    "to_number demo_platform (JNum NaN) = NaN"
    by code_simp+
  show ?thesis
    unfolding getSummaryStats_merge getLocalSummary_merge cardEngagement_format
    by (simp add: engagement_of_fields p l n)
qed

text \<open>
  Claim C7, amended. In the summary response \<open>bounceRate\<close> is 0 when \<open>sessions\<close> or
  \<open>pageViews\<close> is not positive; for each card \<open>avgHoverTime\<close> and \<open>clickRate\<close> are 0 when
  the card has no hovers, and \<open>share\<close> is 0 when there are no hovers at all.
  \<open>bounceRate\<close>, \<open>clickRate\<close> and \<open>share\<close> are never \<open>NaN\<close>, and they are finite when the
  counter in their numerator is below \<open>2^53\<close> in absolute value. For a card with hovers,
  \<open>avgHoverTime\<close> is \<open>NaN\<close> exactly when the card's hover time does not convert to a
  number; it is finite when the hover time converts to a finite number within the range
  of binary64.
\<close>

theorem rates_zero_on_zero_denominator:
  "(sessions tot \<le> 0 \<or> pageViews tot \<le> 0 \<longrightarrow>
      bounceRate (overview (formatSummaryResponse P t tot ds r)) = Fin 0)
   \<and> bounceRate (overview (formatSummaryResponse P t tot ds r)) \<noteq> NaN
   \<and> (\<bar>totalClicks_of tot\<bar> < 2 ^ 53 \<longrightarrow>
         is_Fin (bounceRate (overview (formatSummaryResponse P t tot ds r))))
   \<and> ((voice (cardHovers tot) \<le> 0 \<longrightarrow>
          avgHoverTime (voice (cardEngagement (formatSummaryResponse P t tot ds r))) = Fin 0
          \<and> clickRate (voice (cardEngagement (formatSummaryResponse P t tot ds r))) = Fin 0)
      \<and> (totalHovers_of tot \<le> 0 \<longrightarrow>
            share (voice (cardEngagement (formatSummaryResponse P t tot ds r))) = Fin 0)
      \<and> clickRate (voice (cardEngagement (formatSummaryResponse P t tot ds r))) \<noteq> NaN
      \<and> share (voice (cardEngagement (formatSummaryResponse P t tot ds r))) \<noteq> NaN
      \<and> (\<bar>voice (cardClicks tot)\<bar> < 2 ^ 53 \<longrightarrow>
            is_Fin (clickRate (voice (cardEngagement (formatSummaryResponse P t tot ds r)))))
      \<and> (\<bar>voice (cardHovers tot)\<bar> < 2 ^ 53 \<longrightarrow>
            is_Fin (share (voice (cardEngagement (formatSummaryResponse P t tot ds r)))))
      \<and> (0 < voice (cardHovers tot) \<longrightarrow>
            (avgHoverTime (voice (cardEngagement (formatSummaryResponse P t tot ds r))) = NaN)
              = (to_number P (voice (cardHoverTime tot)) = NaN))
      \<and> (\<forall>x. to_number P (voice (cardHoverTime tot)) = Fin x \<and> \<bar>x\<bar> \<le> max_double \<longrightarrow>
            is_Fin (avgHoverTime (voice (cardEngagement (formatSummaryResponse P t tot ds r))))))
   \<and> ((value_c (cardHovers tot) \<le> 0 \<longrightarrow>
          avgHoverTime (value_c (cardEngagement (formatSummaryResponse P t tot ds r))) = Fin 0
          \<and> clickRate (value_c (cardEngagement (formatSummaryResponse P t tot ds r))) = Fin 0)
      \<and> (totalHovers_of tot \<le> 0 \<longrightarrow>
            share (value_c (cardEngagement (formatSummaryResponse P t tot ds r))) = Fin 0)
      \<and> clickRate (value_c (cardEngagement (formatSummaryResponse P t tot ds r))) \<noteq> NaN
      \<and> share (value_c (cardEngagement (formatSummaryResponse P t tot ds r))) \<noteq> NaN
      \<and> (\<bar>value_c (cardClicks tot)\<bar> < 2 ^ 53 \<longrightarrow>
            is_Fin (clickRate (value_c (cardEngagement (formatSummaryResponse P t tot ds r)))))
      \<and> (\<bar>value_c (cardHovers tot)\<bar> < 2 ^ 53 \<longrightarrow>
            is_Fin (share (value_c (cardEngagement (formatSummaryResponse P t tot ds r)))))
      \<and> (0 < value_c (cardHovers tot) \<longrightarrow>
            (avgHoverTime (value_c (cardEngagement (formatSummaryResponse P t tot ds r))) = NaN)
              = (to_number P (value_c (cardHoverTime tot)) = NaN))
      \<and> (\<forall>x. to_number P (value_c (cardHoverTime tot)) = Fin x \<and> \<bar>x\<bar> \<le> max_double \<longrightarrow>
            is_Fin (avgHoverTime (value_c (cardEngagement (formatSummaryResponse P t tot ds r))))))
   \<and> ((agent (cardHovers tot) \<le> 0 \<longrightarrow>
          avgHoverTime (agent (cardEngagement (formatSummaryResponse P t tot ds r))) = Fin 0
          \<and> clickRate (agent (cardEngagement (formatSummaryResponse P t tot ds r))) = Fin 0)
      \<and> (totalHovers_of tot \<le> 0 \<longrightarrow>
            share (agent (cardEngagement (formatSummaryResponse P t tot ds r))) = Fin 0)
      \<and> clickRate (agent (cardEngagement (formatSummaryResponse P t tot ds r))) \<noteq> NaN
      \<and> share (agent (cardEngagement (formatSummaryResponse P t tot ds r))) \<noteq> NaN
      \<and> (\<bar>agent (cardClicks tot)\<bar> < 2 ^ 53 \<longrightarrow>
            is_Fin (clickRate (agent (cardEngagement (formatSummaryResponse P t tot ds r)))))
      \<and> (\<bar>agent (cardHovers tot)\<bar> < 2 ^ 53 \<longrightarrow>
            is_Fin (share (agent (cardEngagement (formatSummaryResponse P t tot ds r)))))
      \<and> (0 < agent (cardHovers tot) \<longrightarrow>
            (avgHoverTime (agent (cardEngagement (formatSummaryResponse P t tot ds r))) = NaN)
              = (to_number P (agent (cardHoverTime tot)) = NaN))
      \<and> (\<forall>x. to_number P (agent (cardHoverTime tot)) = Fin x \<and> \<bar>x\<bar> \<le> max_double \<longrightarrow>
            is_Fin (avgHoverTime (agent (cardEngagement (formatSummaryResponse P t tot ds r))))))"
proof -
  have b: "(sessions tot \<le> 0 \<or> pageViews tot \<le> 0 \<longrightarrow>
      bounceRate (overview (formatSummaryResponse P t tot ds r)) = Fin 0)
   \<and> bounceRate (overview (formatSummaryResponse P t tot ds r)) \<noteq> NaN
   \<and> (\<bar>totalClicks_of tot\<bar> < 2 ^ 53 \<longrightarrow>
         is_Fin (bounceRate (overview (formatSummaryResponse P t tot ds r))))"
    by (simp add: bounceRate_format bounce_not_NaN bounce_finite)
  have v: "voice (cardEngagement (formatSummaryResponse P t tot ds r)) =
      engagement_of P (voice (cardHovers tot)) (voice (cardClicks tot))
        (voice (cardHoverTime tot)) (totalHovers_of tot)"
    and w: "value_c (cardEngagement (formatSummaryResponse P t tot ds r)) =
      engagement_of P (value_c (cardHovers tot)) (value_c (cardClicks tot))
        (value_c (cardHoverTime tot)) (totalHovers_of tot)"
    and a: "agent (cardEngagement (formatSummaryResponse P t tot ds r)) =
      engagement_of P (agent (cardHovers tot)) (agent (cardClicks tot))
        (agent (cardHoverTime tot)) (totalHovers_of tot)"
    by (simp_all add: cardEngagement_format)
  show ?thesis
    unfolding v w a
    by (intro conjI b [THEN conjunct1] b [THEN conjunct2, THEN conjunct1]
        b [THEN conjunct2, THEN conjunct2] engagement_rates)
qed

theorem rates_zero_on_zero_denominator_witness:
  "sessions zero_totals \<le> 0 \<and> voice (cardHovers zero_totals) \<le> 0
   \<and> totalHovers_of zero_totals \<le> 0
   \<and> \<bar>totalClicks_of zero_totals\<bar> < 2 ^ 53
   \<and> bounceRate (overview (formatSummaryResponse demo_platform 0 zero_totals
        ([] :: daily_stats list) ''7d'')) = Fin 0
   \<and> avgHoverTime (voice (cardEngagement (formatSummaryResponse demo_platform 0 zero_totals
        ([] :: daily_stats list) ''7d''))) = Fin 0
   \<and> clickRate (voice (cardEngagement (formatSummaryResponse demo_platform 0 zero_totals
        ([] :: daily_stats list) ''7d''))) = Fin 0
   \<and> share (voice (cardEngagement (formatSummaryResponse demo_platform 0 zero_totals
        ([] :: daily_stats list) ''7d''))) = Fin 0
   \<and> 0 < voice (cardHovers hover_totals)
   \<and> to_number demo_platform (voice (cardHoverTime hover_totals)) = Fin 3000
   \<and> avgHoverTime (voice (cardEngagement (formatSummaryResponse demo_platform 0 hover_totals
        ([] :: daily_stats list) ''7d''))) \<noteq> NaN
   \<and> is_Fin (avgHoverTime (voice (cardEngagement (formatSummaryResponse demo_platform 0
        hover_totals ([] :: daily_stats list) ''7d''))))
   \<and> is_Fin (share (voice (cardEngagement (formatSummaryResponse demo_platform 0
        hover_totals ([] :: daily_stats list) ''7d''))))
   \<and> avgHoverTime (voice (cardEngagement (formatSummaryResponse demo_platform 0 hover_totals
        ([] :: daily_stats list) ''7d''))) = Fin 75
   \<and> clickRate (voice (cardEngagement (formatSummaryResponse demo_platform 0 hover_totals
        ([] :: daily_stats list) ''7d''))) = Fin 57
   \<and> share (voice (cardEngagement (formatSummaryResponse demo_platform 0 hover_totals
        ([] :: daily_stats list) ''7d''))) = Fin 100"
proof -
  have h: "sessions zero_totals \<le> 0" "voice (cardHovers zero_totals) \<le> 0"
    "totalHovers_of zero_totals \<le> 0" "\<bar>totalClicks_of zero_totals\<bar> < 2 ^ 53"
    by (simp_all add: zero_totals_def zero_cards_def totalHovers_of_def totalClicks_of_def)
  have g: "0 < voice (cardHovers hover_totals)"
    "to_number demo_platform (voice (cardHoverTime hover_totals)) = Fin 3000"
    "\<bar>voice (cardHovers hover_totals)\<bar> < 2 ^ 53"
    by (simp_all add: hover_totals_def zero_totals_def to_number_def)
  have m: "\<bar>3000\<bar> \<le> max_double" by (simp add: max_double_def)
  note z = rates_zero_on_zero_denominator
    [of zero_totals demo_platform 0 "[] :: daily_stats list" "''7d''"]
  note n = rates_zero_on_zero_denominator
    [of hover_totals demo_platform 0 "[] :: daily_stats list" "''7d''"]
  note zv = z [THEN conjunct2, THEN conjunct2, THEN conjunct2, THEN conjunct1]
  note nv = n [THEN conjunct2, THEN conjunct2, THEN conjunct2, THEN conjunct1]
  from z [THEN conjunct1] h(1)
  have 1: "bounceRate (overview (formatSummaryResponse demo_platform 0 zero_totals
        ([] :: daily_stats list) ''7d'')) = Fin 0"
    by blast
  from zv h(2,3)
  have 2: "avgHoverTime (voice (cardEngagement (formatSummaryResponse demo_platform 0 zero_totals
        ([] :: daily_stats list) ''7d''))) = Fin 0"
    "clickRate (voice (cardEngagement (formatSummaryResponse demo_platform 0 zero_totals
        ([] :: daily_stats list) ''7d''))) = Fin 0"
    "share (voice (cardEngagement (formatSummaryResponse demo_platform 0 zero_totals
        ([] :: daily_stats list) ''7d''))) = Fin 0"
    by blast+
  from nv g m
  have 3: "avgHoverTime (voice (cardEngagement (formatSummaryResponse demo_platform 0 hover_totals
        ([] :: daily_stats list) ''7d''))) \<noteq> NaN"
    "is_Fin (avgHoverTime (voice (cardEngagement (formatSummaryResponse demo_platform 0
        hover_totals ([] :: daily_stats list) ''7d''))))"
    "is_Fin (share (voice (cardEngagement (formatSummaryResponse demo_platform 0
        hover_totals ([] :: daily_stats list) ''7d''))))"
    by auto
  have 4: "avgHoverTime (voice (cardEngagement (formatSummaryResponse demo_platform 0
        hover_totals ([] :: daily_stats list) ''7d''))) = Fin 75"
    "clickRate (voice (cardEngagement (formatSummaryResponse demo_platform 0 hover_totals
        ([] :: daily_stats list) ''7d''))) = Fin 57"
    "share (voice (cardEngagement (formatSummaryResponse demo_platform 0 hover_totals
        ([] :: daily_stats list) ''7d''))) = Fin 100"
    by (simp_all add: cardEngagement_format engagement_of_fields hover_totals_def
        zero_totals_def zero_cards_def totalHovers_of_def to_number_def num_def r64_eval)
  from h g(1,2) 1 2 3 4 show ?thesis by (intro conjI)
qed

end
